theory Spec2Isabelle
  imports Complex_Main "HOL-Library.List_Lexorder" "HOL-Library.Char_ord"
    "HOL-Library.Product_Lexorder"
begin

section \<open>Tables\<close>

text \<open>
  The pipeline keeps every domain table in a pandas DataFrame. A DataFrame is modelled
  column by column, as pandas stores it: a list of named columns, each a list of cells,
  in column order. Python strings are kept as their UTF-8 bytes (substring search and
  ordering on the bytes agree with those on code points). A cell read from a CSV file is
  a text, a number or the missing value NaN.
\<close>

datatype cell = Txt string | Num real | NaN

type_synonym column = "string \<times> cell list"

type_synonym frame = "column list"

datatype error = KeyError | ZeroDivisionError | ValueError

text \<open>\<open>df.columns\<close> and \<open>len(df)\<close>.\<close>

definition columns :: "frame \<Rightarrow> string list" where
  "columns df = map fst df"

definition len :: "frame \<Rightarrow> nat" where
  "len df = (case df of [] \<Rightarrow> 0 | c # _ \<Rightarrow> length (snd c))"

text \<open>\<open>df[mask]\<close>: the rows at which the boolean vector is True, in every column.\<close>

definition select_mask :: "bool list \<Rightarrow> 'a list \<Rightarrow> 'a list" where
  "select_mask msk vs = map fst (filter snd (zip vs msk))"

definition select_rows :: "bool list \<Rightarrow> frame \<Rightarrow> frame" where
  "select_rows msk df = map (\<lambda>c. (fst c, select_mask msk (snd c))) df"

text \<open>\<open>series.isin(values)\<close>.\<close>

definition isin :: "cell list \<Rightarrow> cell set \<Rightarrow> bool list" where
  "isin vs S = map (\<lambda>v. v \<in> S) vs"

text \<open>
  \<open>df[name] = values\<close> replaces the column of that name where it stands, or appends a
  new last column; \<open>df.drop(columns=names)\<close>; \<open>df.rename(columns={old: new})\<close>.
\<close>

fun set_column :: "string \<Rightarrow> cell list \<Rightarrow> frame \<Rightarrow> frame" where
  "set_column name vs [] = [(name, vs)]"
| "set_column name vs (c # df) =
     (if fst c = name then (name, vs) # df else c # set_column name vs df)"

definition drop_columns :: "string list \<Rightarrow> frame \<Rightarrow> frame" where
  "drop_columns names df = filter (\<lambda>c. fst c \<notin> set names) df"

definition rename_column :: "string \<Rightarrow> string \<Rightarrow> frame \<Rightarrow> frame" where
  "rename_column old new df = map (\<lambda>c. (if fst c = old then new else fst c, snd c)) df"


text \<open>
  Where a table is kept row by row, every row has the EpisodeKey \<open>admission_key\<close>.
\<close>

record keyed_row =
  admission_key :: string

text \<open>
  All the columns of a DataFrame have the length of the table.
\<close>

definition rectangular :: "frame \<Rightarrow> bool" where
  "rectangular df = list_all (\<lambda>c. length (snd c) = len df) df"

section \<open>Step 2: cohort filter\<close>

text \<open>
  The files of the group directory hold CSV text, and every pass reads them anew:
  \<open>pd.read_csv\<close> infers the type of each column from the text it finds, so that a
  table written by \<open>to_csv\<close> need not read back with the cells it was written from.
  The two functions are parameters of the model, over any type \<open>'f\<close> of file contents:
  \<open>read_csv\<close> gives the table of a file, or \<open>None\<close> where it raises, and \<open>to_csv\<close>
  the contents written for a table (\<open>index=False\<close>).
\<close>

record 'f csv_lib =
  read_csv :: "'f \<Rightarrow> frame option"
  to_csv :: "frame \<Rightarrow> 'f"

text \<open>
  \<open>exclude_patients_from_all_files\<close> rewrites every file of the directory (in sorted
  order) without the rows whose \<open>admission_key\<close> is excluded and returns the number of
  rows deleted; a file on which the body of the \<open>try\<close> raises (unreadable, or without
  the column \<open>admission_key\<close>) is skipped and left as it is.
\<close>

definition exclude_patients_from_file :: "'f csv_lib \<Rightarrow> cell set \<Rightarrow> 'f \<Rightarrow> 'f \<times> nat" where
  "exclude_patients_from_file lib excluded_patients file =
     (case read_csv lib file of
        None \<Rightarrow> (file, 0)
      | Some df \<Rightarrow>
          (case map_of df ''admission_key'' of
             None \<Rightarrow> (file, 0)
           | Some keys \<Rightarrow>
               (let original_records = len df;
                    df_filtered = select_rows (map Not (isin keys excluded_patients)) df;
                    new_records = len df_filtered
                in (to_csv lib df_filtered, original_records - new_records))))"

fun exclude_patients_from_all_files ::
  "'f csv_lib \<Rightarrow> (string \<times> 'f) list \<Rightarrow> cell set \<Rightarrow> (string \<times> 'f) list \<times> nat" where
  "exclude_patients_from_all_files lib [] excluded_patients = ([], 0)"
| "exclude_patients_from_all_files lib ((name, file) # csv_files) excluded_patients =
     (let (file', deleted) = exclude_patients_from_file lib excluded_patients file;
          (rest, total_deleted) = exclude_patients_from_all_files lib csv_files excluded_patients
      in ((name, file') # rest, deleted + total_deleted))"

text \<open>
  The key column of a table reads back as it was written: if the file written for the
  table reads at all, its column \<open>admission_key\<close> holds the cells of the table's. The
  keys that step 1 builds are texts \<open>patient_sn + "_" + time_quantum\<close>, which are not
  read as numbers.
\<close>

definition key_column_reads_back :: "'f csv_lib \<Rightarrow> frame \<Rightarrow> bool" where
  "key_column_reads_back lib df =
     (case read_csv lib (to_csv lib df) of
        None \<Rightarrow> True
      | Some df' \<Rightarrow> map_of df' ''admission_key'' = map_of df ''admission_key'')"

text \<open>The table that the first pass writes for a file, if it writes one.\<close>

definition written_by_pass :: "'f csv_lib \<Rightarrow> cell set \<Rightarrow> 'f \<Rightarrow> frame option" where
  "written_by_pass lib excluded_patients file =
     (case read_csv lib file of
        None \<Rightarrow> None
      | Some df \<Rightarrow>
          (case map_of df ''admission_key'' of
             None \<Rightarrow> None
           | Some keys \<Rightarrow> Some (select_rows (map Not (isin keys excluded_patients)) df)))"

text \<open>
  The two conditions on the files of a directory under which a pass is run again:
  \<open>read_csv\<close> gives tables, and the key column of every table that the pass writes
  reads back as written.
\<close>

definition reads_tables :: "'f csv_lib \<Rightarrow> bool" where
  "reads_tables lib = (\<forall>file df. read_csv lib file = Some df \<longrightarrow> rectangular df)"

definition keys_read_back :: "'f csv_lib \<Rightarrow> (string \<times> 'f) list \<Rightarrow> cell set \<Rightarrow> bool" where
  "keys_read_back lib csv_files excluded_patients =
     list_all (\<lambda>(name, file).
        case written_by_pass lib excluded_patients file of
          None \<Rightarrow> True
        | Some df \<Rightarrow> key_column_reads_back lib df) csv_files"

text \<open>
  A small instance of the two functions, for the examples: the contents of a file are
  the table of its texts, and reading infers the type of each column, a column of
  digit texts being read as numbers; a file without columns, or with columns of
  different lengths, does not read.
\<close>

definition digits_value :: "string \<Rightarrow> nat" where
  "digits_value s = fold (\<lambda>c n. 10 * n + length (takeWhile (\<lambda>d. d \<noteq> c) ''0123456789'')) s 0"

definition is_digits :: "cell \<Rightarrow> bool" where
  "is_digits c = (case c of Txt s \<Rightarrow> s \<noteq> [] \<and> list_all (\<lambda>c. c \<in> set ''0123456789'') s | _ \<Rightarrow> False)"

definition infer_column :: "column \<Rightarrow> column" where
  "infer_column c =
     (if list_all is_digits (snd c)
      then (fst c, map (\<lambda>v. case v of Txt s \<Rightarrow> Num (real (digits_value s)) | _ \<Rightarrow> v) (snd c))
      else c)"

definition example_csv :: "frame csv_lib" where
  "example_csv =
     \<lparr>read_csv = (\<lambda>file. if file \<noteq> [] \<and> rectangular file then Some (map infer_column file) else None),
      to_csv = (\<lambda>df. df)\<rparr>"

section \<open>Texts\<close>

text \<open>
  \<open>s.startswith(p)\<close> and the substring test \<open>k in s\<close> of Python, on the bytes of the
  two texts (a text is a substring of another exactly when its UTF-8 bytes are).
  \<open>str_len\<close> counts the code points of a text: the bytes that are not UTF-8
  continuation bytes. \<open>ascii_lower\<close> changes the ASCII capitals, as \<open>str.lower\<close>
  does on ASCII texts.
\<close>

fun startswith :: "string \<Rightarrow> string \<Rightarrow> bool" where
  "startswith s [] = True"
| "startswith [] (p # ps) = False"
| "startswith (c # s) (p # ps) = (c = p \<and> startswith s ps)"

fun str_in :: "string \<Rightarrow> string \<Rightarrow> bool" where
  "str_in k [] = (k = [])"
| "str_in k (c # s) = (startswith (c # s) k \<or> str_in k s)"

definition lower_char :: "char \<Rightarrow> char" where
  "lower_char c =
     (case map_of (zip ''ABCDEFGHIJKLMNOPQRSTUVWXYZ'' ''abcdefghijklmnopqrstuvwxyz'') c of
        None \<Rightarrow> c
      | Some l \<Rightarrow> l)"

definition ascii_lower :: "string \<Rightarrow> string" where
  "ascii_lower s = map lower_char s"

definition str_len :: "string \<Rightarrow> nat" where
  "str_len s = length (filter (\<lambda>c. \<not> (128 \<le> (of_char c :: nat) \<and> (of_char c :: nat) < 192)) s)"

text \<open>\<open>df[col] = f(df[col])\<close> on a table whose column names are distinct.\<close>

definition update_column :: "string \<Rightarrow> (cell list \<Rightarrow> cell list) \<Rightarrow> frame \<Rightarrow> frame" where
  "update_column col f df = map (\<lambda>c. if fst c = col then (fst c, f (snd c)) else c) df"

section \<open>Step 1: the day-boundary rule\<close>

text \<open>
  A parsed timestamp (\<open>pd.Timestamp\<close>) with its calendar fields. Subtracting
  \<open>timedelta(days=1)\<close> gives the same time of day on the previous calendar date;
  \<open>toordinal\<close> is the day number of Python's \<open>date\<close>.
\<close>

record timestamp =
  year :: nat
  month :: nat
  day :: nat
  hour :: nat
  minute :: nat
  second :: nat

definition is_leap :: "nat \<Rightarrow> bool" where
  "is_leap y = (y mod 4 = 0 \<and> (y mod 100 \<noteq> 0 \<or> y mod 400 = 0))"

definition days_in_month :: "nat \<Rightarrow> nat \<Rightarrow> nat" where
  "days_in_month y m =
     (if m = 2 then (if is_leap y then 29 else 28)
      else if m = 4 \<or> m = 6 \<or> m = 9 \<or> m = 11 then 30 else 31)"

definition days_before_year :: "nat \<Rightarrow> int" where
  "days_before_year y = (let p = int y - 1 in p * 365 + p div 4 - p div 100 + p div 400)"

definition days_before_month :: "nat \<Rightarrow> nat \<Rightarrow> int" where
  "days_before_month y m =
     int ([0, 0, 31, 59, 90, 120, 151, 181, 212, 243, 273, 304, 334] ! m)
       + (if 2 < m \<and> is_leap y then 1 else 0)"

definition toordinal :: "'a timestamp_scheme \<Rightarrow> int" where
  "toordinal t = days_before_year (year t) + days_before_month (year t) (month t) + int (day t)"

definition valid_date :: "'a timestamp_scheme \<Rightarrow> bool" where
  "valid_date t =
     (1 \<le> month t \<and> month t \<le> 12 \<and> 1 \<le> day t \<and> day t \<le> days_in_month (year t) (month t))"

definition minus_one_day :: "timestamp \<Rightarrow> timestamp" where
  "minus_one_day t =
     (if 1 < day t then t\<lparr>day := day t - 1\<rparr>
      else if 1 < month t
        then t\<lparr>month := month t - 1, day := days_in_month (year t) (month t - 1)\<rparr>
      else t\<lparr>year := year t - 1, month := 12, day := 31\<rparr>)"

text \<open>
  \<open>strftime('%Y-%m-%d')\<close>: four digits of the year (the years of a pandas timestamp
  lie between 1677 and 2262), two of the month and two of the day.
\<close>

definition digit :: "nat \<Rightarrow> char" where
  "digit n = ''0123456789'' ! (n mod 10)"

definition strftime_ymd :: "timestamp \<Rightarrow> string" where
  "strftime_ymd t =
     [digit (year t div 1000), digit (year t div 100), digit (year t div 10), digit (year t)]
     @ ''-'' @ [digit (month t div 10), digit (month t)]
     @ ''-'' @ [digit (day t div 10), digit (day t)]"

text \<open>
  The rule on one parsed value of a timestamp column (\<open>None\<close> is \<open>NaT\<close>): a value with
  \<open>hour < 8\<close> loses one day, and every value is written as its date; \<open>NaT\<close> stays
  missing (\<open>NaT.hour < 8\<close> is False, and \<open>strftime\<close> of \<open>NaT\<close> is NaN).
\<close>

definition shift_early :: "timestamp \<Rightarrow> timestamp" where
  "shift_early t = (if hour t < 8 then minus_one_day t else t)"

definition date_8_8 :: "timestamp option \<Rightarrow> cell" where
  "date_8_8 parsed = (case parsed of None \<Rightarrow> NaN | Some t \<Rightarrow> Txt (strftime_ymd (shift_early t)))"

text \<open>
  The library functions that \<open>_process_datetime_columns\<close> calls are parameters of the
  model: \<open>str.lower()\<close> on a column name, \<open>astype(str)\<close> on one cell, \<open>str.strip()\<close>
  on one text, and \<open>pd.to_datetime(errors='coerce')\<close> on the texts of a whole column
  (\<open>None\<close> where a text does not parse; how one text parses may depend on the others
  of its column). \<open>str.replace('\t', '', regex=False)\<close> removes the tabs.
\<close>

record pandas =
  str_lower :: "string \<Rightarrow> string"
  astype_str :: "cell \<Rightarrow> string"
  str_strip :: "string \<Rightarrow> string"
  to_datetime :: "string list \<Rightarrow> timestamp option list"

definition remove_tabs :: "string \<Rightarrow> string" where
  "remove_tabs s = filter (\<lambda>c. c \<noteq> CHR 0x09) s"

definition clean_column :: "pandas \<Rightarrow> cell list \<Rightarrow> string list" where
  "clean_column lib vals = map (\<lambda>c. str_strip lib (remove_tabs (astype_str lib c))) vals"

definition convert_column :: "pandas \<Rightarrow> cell list \<Rightarrow> cell list" where
  "convert_column lib vals = map date_8_8 (to_datetime lib (clean_column lib vals))"

text \<open>
  The columns the rule applies to: the lower-cased name contains \<open>time\<close> or \<open>_date\<close>
  and none of the excluded patterns, and one of the first five non-missing values,
  as a text, contains a colon or is longer than ten characters.
\<close>

definition exclude_patterns :: "string list" where
  "exclude_patterns = [''birth_date'', ''admission_date'', ''discharge_date'', ''surgery_dates'']"

definition is_datetime_column :: "pandas \<Rightarrow> column \<Rightarrow> bool" where
  "is_datetime_column lib c =
     (let col_lower = str_lower lib (fst c) in
      list_ex (\<lambda>k. str_in k col_lower) [''time'', ''_date'']
      \<and> \<not> list_ex (\<lambda>p. str_in p col_lower) exclude_patterns
      \<and> (let sample = take 5 (map (astype_str lib) (filter (\<lambda>v. v \<noteq> NaN) (snd c)))
         in 0 < length sample
            \<and> (list_ex (\<lambda>s. str_in '':'' s) sample \<or> list_ex (\<lambda>s. 10 < str_len s) sample)))"

text \<open>
  The loop over the selected columns converts each one in place and records the number
  of its values that are not missing afterwards. The columns of a table read from a
  CSV file have distinct names.
\<close>

definition notna_sum :: "cell list \<Rightarrow> nat" where
  "notna_sum vals = length (filter (\<lambda>v. v \<noteq> NaN) vals)"

fun convert_columns :: "pandas \<Rightarrow> string list \<Rightarrow> frame \<Rightarrow> frame \<times> (string \<times> nat) list" where
  "convert_columns lib [] df = (df, [])"
| "convert_columns lib (col # datetime_cols) df =
     (let df' = update_column col (convert_column lib) df;
          n = (case map_of df' col of None \<Rightarrow> 0 | Some vals \<Rightarrow> notna_sum vals);
          (df'', stats) = convert_columns lib datetime_cols df'
      in (df'', (col, n) # stats))"

definition process_datetime_columns :: "pandas \<Rightarrow> frame \<Rightarrow> frame \<times> (string \<times> nat) list" where
  "process_datetime_columns lib df =
     (let datetime_cols = map fst (filter (is_datetime_column lib) df)
      in if datetime_cols = [] then (df, []) else convert_columns lib datetime_cols df)"

section \<open>Step 6: fasting and nutrition orders\<close>

text \<open>
  A row of the non-drug order table with the columns that \<open>extract_fasting_nutrition\<close>
  requires. The library functions are parameters of the model: \<open>cell_str\<close> is the text
  of a cell (\<open>astype(str)\<close>, and the formatting of a cell in an f-string), and
  \<open>to_timestamp\<close> is \<open>pd.to_datetime\<close> on one value, \<open>None\<close> where it raises or
  gives \<open>NaT\<close>.
\<close>

record order_row = keyed_row +
  order_item_name :: cell
  prescribed_time :: cell
  start_time :: cell
  stop_time :: cell

record orders_lib =
  cell_str :: "cell \<Rightarrow> string"
  to_timestamp :: "cell \<Rightarrow> timestamp option"










text \<open>
  The window of a fasting row: from 8:00 of the day of \<open>prescribed_time\<close> to 8:00 of
  the next day, written \<open>%Y-%m-%d %H:%M\<close>. A \<open>prescribed_time\<close> that does not parse
  makes the function raise (in \<open>pd.to_datetime\<close>, or in \<open>strftime\<close> of \<open>NaT\<close>).
\<close>

definition plus_one_day :: "timestamp \<Rightarrow> timestamp" where
  "plus_one_day t =
     (if day t < days_in_month (year t) (month t) then t\<lparr>day := day t + 1\<rparr>
      else if month t < 12 then t\<lparr>month := month t + 1, day := 1\<rparr>
      else t\<lparr>year := year t + 1, month := 1, day := 1\<rparr>)"

definition strftime_ymd_hm :: "timestamp \<Rightarrow> string" where
  "strftime_ymd_hm t =
     strftime_ymd t @ '' '' @ [digit (hour t div 10), digit (hour t)]
       @ '':'' @ [digit (minute t div 10), digit (minute t)]"

definition fasting_period :: "orders_lib \<Rightarrow> order_row \<Rightarrow> error + string" where
  "fasting_period lib r =
     (case to_timestamp lib (prescribed_time r) of
        None \<Rightarrow> Inl ValueError
      | Some prescribed_date \<Rightarrow>
          (let window_start = prescribed_date\<lparr>hour := 8, minute := 0, second := 0\<rparr>;
               window_end = plus_one_day window_start
           in Inr (strftime_ymd_hm window_start @ '' - '' @ strftime_ymd_hm window_end)))"


text \<open>
  The loop over the valid fasting rows collects the periods of each key, in table
  order, and stops at the first row that raises.
\<close>

fun fasting_periods_of ::
  "orders_lib \<Rightarrow> order_row list \<Rightarrow> error + (string \<times> string) list" where
  "fasting_periods_of lib [] = Inr []"
| "fasting_periods_of lib (r # rows) =
     (case fasting_period lib r of
        Inl e \<Rightarrow> Inl e
      | Inr period \<Rightarrow>
          (case fasting_periods_of lib rows of
             Inl e \<Rightarrow> Inl e
           | Inr periods \<Rightarrow> Inr ((admission_key r, period) # periods)))"




section \<open>Step 7: daily glucose statistics and the next-day label\<close>

text \<open>
  A calendar date is kept as its ordinal (\<open>date.toordinal()\<close>), so the next calendar
  date is the ordinal plus one. A glucose measurement is a row of the glucose table after
  \<open>pd.to_datetime(exam_time, errors='coerce').dt.date\<close> and
  \<open>pd.to_numeric(blood_sugar, errors='coerce')\<close>: an unparseable time or value is
  \<open>None\<close>. Glucose values are real numbers; the rounding of binary floating point is
  not modelled. A quotient of two floats is a number, infinite (a positive number divided
  by zero) or NaN.
\<close>

datatype float_value = Finite real | PosInf | NotANumber

record glucose_row = keyed_row +
  exam_date :: "int option"
  blood_sugar :: "real option"

record day_row = keyed_row +
  date :: int

record daily_glucose = day_row +
  min_glucose :: real
  max_glucose :: real
  mean_glucose :: real
  std_glucose :: "real option"
  count_glucose :: nat
  cv_glucose :: float_value

record labelled_day = daily_glucose +
  outcome :: nat

text \<open>\<open>dropna\<close> on the date and on the value leaves the parseable measurements.\<close>

definition valid_measurements :: "glucose_row list \<Rightarrow> (string \<times> int \<times> real) list" where
  "valid_measurements df =
     List.map_filter
       (\<lambda>m. case (exam_date m, blood_sugar m) of
               (Some d, Some v) \<Rightarrow> Some (admission_key m, d, v)
             | _ \<Rightarrow> None) df"

text \<open>
  The aggregations of \<open>groupby(...).agg\<close>: \<open>min\<close>, \<open>max\<close>, \<open>mean\<close>, \<open>count\<close> and
  \<open>std\<close>. pandas' \<open>std\<close> is the sample standard deviation (\<open>ddof=1\<close>): the squared
  deviations are divided by \<open>n - 1\<close>, and a group of one value has no \<open>std\<close> (NaN).
\<close>

definition agg_min :: "real list \<Rightarrow> real" where
  "agg_min vs = fold min (tl vs) (hd vs)"

definition agg_max :: "real list \<Rightarrow> real" where
  "agg_max vs = fold max (tl vs) (hd vs)"

definition agg_mean :: "real list \<Rightarrow> real" where
  "agg_mean vs = sum_list vs / real (length vs)"

definition agg_std :: "real list \<Rightarrow> real option" where
  "agg_std vs =
     (if length vs < 2 then None
      else Some (sqrt (sum_list (map (\<lambda>x. (x - agg_mean vs)\<^sup>2) vs) / real (length vs - 1))))"

text \<open>
  \<open>Series.round(2)\<close> is a parameter \<open>round_2\<close> of the model: numpy rounds the binary
  float, so that a quotient whose real value lies at a tie of two decimals goes to either
  neighbour (the float quotient of the values 15.9, 16.0 and 16.1 lies just above the
  tie 0.625). What is known of it is that it rounds to two decimals.
\<close>

definition rounds_to_2_decimals :: "(real \<Rightarrow> real) \<Rightarrow> bool" where
  "rounds_to_2_decimals round_2 =
     (\<forall>x. (\<exists>k :: int. round_2 x = of_int k / 100) \<and> \<bar>round_2 x - x\<bar> \<le> 1 / 200)"

text \<open>
  One such rounding, for the examples: to two decimals, a tie going to the even
  neighbour.
\<close>

definition round_half_even :: "real \<Rightarrow> int" where
  "round_half_even x =
     (let f = \<lfloor>x\<rfloor>; r = x - of_int f
      in if r < 1 / 2 then f else if 1 / 2 < r then f + 1 else if even f then f else f + 1)"

definition round2 :: "real \<Rightarrow> real" where
  "round2 x = of_int (round_half_even (x * 100)) / 100"

text \<open>
  The coefficient of variation \<open>(std / mean * 100).round(2)\<close>. It is NaN where \<open>std\<close>
  is. With a mean of zero the float quotient is NaN for \<open>std = 0\<close> and infinite
  otherwise (\<open>std\<close> is not negative), and rounding leaves both as they are.
\<close>

definition cv :: "(real \<Rightarrow> real) \<Rightarrow> real option \<Rightarrow> real \<Rightarrow> float_value" where
  "cv round_2 std_g mean_g =
     (case std_g of
        None \<Rightarrow> NotANumber
      | Some s \<Rightarrow>
          if mean_g = 0 then (if s = 0 then NotANumber else PosInf)
          else Finite (round_2 (s / mean_g * 100)))"

definition group_values :: "(string \<times> int \<times> real) list \<Rightarrow> string \<times> int \<Rightarrow> real list" where
  "group_values df g = map (\<lambda>m. snd (snd m)) (filter (\<lambda>m. (fst m, fst (snd m)) = g) df)"

definition daily_of :: "(real \<Rightarrow> real) \<Rightarrow> string \<times> int \<Rightarrow> real list \<Rightarrow> daily_glucose" where
  "daily_of round_2 g vs =
     \<lparr>admission_key = fst g, date = snd g,
      min_glucose = agg_min vs, max_glucose = agg_max vs, mean_glucose = agg_mean vs,
      std_glucose = agg_std vs, count_glucose = length vs,
      cv_glucose = cv round_2 (agg_std vs) (agg_mean vs)\<rparr>"

text \<open>
  \<open>groupby(['admission_key', 'date'])\<close> gives one row for each pair that occurs, in
  sorted order (the later \<open>sort_values\<close> on the same two columns changes nothing).
\<close>

definition daily_glucose_stats :: "(real \<Rightarrow> real) \<Rightarrow> glucose_row list \<Rightarrow> daily_glucose list" where
  "daily_glucose_stats round_2 df_glucose =
     (let df = valid_measurements df_glucose
      in map (\<lambda>g. daily_of round_2 g (group_values df g))
           (sort (remdups (map (\<lambda>m. (fst m, fst (snd m))) df))))"

text \<open>
  The left merge with the table's own minima and maxima on
  \<open>(admission_key, next_date)\<close>: every match gives a row, no match gives one row with
  NaN for both.
\<close>

definition merge_next_day ::
  "daily_glucose list \<Rightarrow> (daily_glucose \<times> real option \<times> real option) list" where
  "merge_next_day daily =
     concat (map (\<lambda>r.
       (case filter (\<lambda>n. admission_key n = admission_key r \<and> date n = date r + 1) daily of
          [] \<Rightarrow> [(r, None, None)]
        | ns \<Rightarrow> map (\<lambda>n. (r, Some (min_glucose n), Some (max_glucose n))) ns)) daily)"

text \<open>\<open>classify_outcome\<close>: 0 hypoglycemia, 2 hyperglycemia, 1 normal; NaN is \<open>None\<close>.\<close>

definition classify_outcome :: "real option \<Rightarrow> real option \<Rightarrow> nat option" where
  "classify_outcome next_min_glucose next_max_glucose =
     (case next_min_glucose of
        None \<Rightarrow> None
      | Some mn \<Rightarrow>
          if mn < 3.9 then Some 0
          else if (case next_max_glucose of None \<Rightarrow> False | Some mx \<Rightarrow> 13.9 < mx) then Some 2
          else Some 1)"

definition with_outcome :: "daily_glucose \<Rightarrow> nat \<Rightarrow> labelled_day" where
  "with_outcome r c = daily_glucose.extend r (labelled_day.fields c)"

text \<open>The rows with an outcome are kept; the helper columns are dropped.\<close>

definition label_next_day :: "daily_glucose list \<Rightarrow> labelled_day list" where
  "label_next_day daily =
     List.map_filter
       (\<lambda>(r, next_min_glucose, next_max_glucose).
          map_option (with_outcome r) (classify_outcome next_min_glucose next_max_glucose))
       (merge_next_day daily)"

definition process_glucose_data :: "(real \<Rightarrow> real) \<Rightarrow> glucose_row list \<Rightarrow> labelled_day list" where
  "process_glucose_data round_2 df_glucose =
     label_next_day (daily_glucose_stats round_2 df_glucose)"

text \<open>The key of a daily row, and the output rows that come from one row of the merge.\<close>

definition key_date :: "'a day_row_scheme \<Rightarrow> string \<times> int" where
  "key_date r = (admission_key r, date r)"

definition labelled_rows :: "daily_glucose list \<Rightarrow> daily_glucose \<Rightarrow> labelled_day list" where
  "labelled_rows daily r =
     List.map_filter
       (\<lambda>(r, next_min_glucose, next_max_glucose).
          map_option (with_outcome r) (classify_outcome next_min_glucose next_max_glucose))
       (case filter (\<lambda>n. admission_key n = admission_key r \<and> date n = date r + 1) daily of
          [] \<Rightarrow> [(r, None, None)]
        | ns \<Rightarrow> map (\<lambda>n. (r, Some (min_glucose n), Some (max_glucose n))) ns)"

text \<open>
  The population standard deviation, which divides the squared deviations by \<open>n\<close>:
  the statistic that the description of the daily statistics names, for comparison with
  \<open>agg_std\<close>.
\<close>

definition population_std :: "real list \<Rightarrow> real" where
  "population_std vs = sqrt (sum_list (map (\<lambda>x. (x - agg_mean vs)\<^sup>2) vs) / real (length vs))"

section \<open>Step 7: the time-series table and boundary trimming\<close>

text \<open>
  \<open>groupby('admission_key').cumcount()\<close> numbers the rows of each group from 0 in table
  order, and \<open>groupby('admission_key')['admission_key'].transform('count')\<close> gives
  every row the size of its group.
\<close>

fun cumcount_from :: "('k \<Rightarrow> nat) \<Rightarrow> 'k list \<Rightarrow> nat list" where
  "cumcount_from seen [] = []"
| "cumcount_from seen (k # ks) = seen k # cumcount_from (seen(k := Suc (seen k))) ks"

definition cumcount :: "'k list \<Rightarrow> nat list" where
  "cumcount ks = cumcount_from (\<lambda>_. 0) ks"

definition transform_count :: "'k list \<Rightarrow> nat list" where
  "transform_count ks = map (\<lambda>k. length (filter (\<lambda>k'. k' = k) ks)) ks"

text \<open>
  Step 7 of \<open>build_timeseries_dataset\<close>: the table is sorted by
  \<open>(admission_key, date)\<close>, and the rows with \<open>day_seq > 1\<close> and
  \<open>day_seq < total_days\<close> are kept. The table may carry any further columns.
\<close>

definition trim_boundary_days :: "'a day_row_scheme list \<Rightarrow> 'a day_row_scheme list" where
  "trim_boundary_days daily_data =
     (let sorted = sort_key (\<lambda>r. (admission_key r, date r)) daily_data;
          day_seq = map Suc (cumcount (map admission_key sorted));
          total_days = transform_count (map admission_key sorted)
      in select_mask (map2 (\<lambda>s t. 1 < s \<and> s < t) day_seq total_days) sorted)"

text \<open>The rows of one group that are kept, the group's counter starting at \<open>s\<close>.\<close>

fun kept_of_group :: "nat \<Rightarrow> nat \<Rightarrow> 'a list \<Rightarrow> 'a list" where
  "kept_of_group s n [] = []"
| "kept_of_group s n (g # gs) =
     (if 1 < Suc s \<and> Suc s < n then [g] else []) @ kept_of_group (Suc s) n gs"


text \<open>
  \<open>build_timeseries_dataset\<close>. The labelled daily table is left-merged with the static
  features on \<open>admission_key\<close>: a daily row gives one row for each row of the static
  table with its key, in the order of that table, and one row without static features
  when there is none. \<open>extract_static_features\<close> starts from
  \<open>df_admission[['admission_key']]\<close> and left-merges tables that hold one row for each
  key (results of \<open>groupby\<close> and \<open>drop_duplicates\<close>), so that the static table has one
  row for each row of the admission table, duplicates included; the static columns of a
  row are kept as one value of any type \<open>'s\<close>. The merges of steps 3 and 4 join tables
  with one row for each key (and date), results of \<open>pivot_table\<close> and \<open>groupby\<close>: they
  add columns, which are not modelled, and leave the rows as they are.
\<close>

record 's static_row = labelled_day +
  static_features :: "'s option"

record 's hosp_row = "'s static_row" +
  HospDay :: nat

record 's timeseries_row = "'s hosp_row" +
  PREHYPO :: nat

definition merge_static :: "labelled_day list \<Rightarrow> (string \<times> 's) list \<Rightarrow> 's static_row list" where
  "merge_static daily_data static =
     concat (map (\<lambda>r.
       (case filter (\<lambda>s. fst s = admission_key r) static of
          [] \<Rightarrow> [labelled_day.extend r (static_row.fields None)]
        | ms \<Rightarrow> map (\<lambda>s. labelled_day.extend r (static_row.fields (Some (snd s)))) ms))
       daily_data)"

text \<open>
  Step 5 sorts by \<open>(admission_key, date)\<close> and numbers the rows of each key from 1;
  step 6 marks the rows that have a row of the same key with a minimum below 3.9 on an
  earlier date.
\<close>

definition add_hosp_day :: "'s static_row list \<Rightarrow> 's hosp_row list" where
  "add_hosp_day daily_data =
     (let sorted = sort_key (\<lambda>r. (admission_key r, date r)) daily_data
      in map2 (\<lambda>r n. static_row.extend r (hosp_row.fields (n + 1)))
           sorted (cumcount (map admission_key sorted)))"

definition add_prehypo :: "'s hosp_row list \<Rightarrow> 's timeseries_row list" where
  "add_prehypo daily_data =
     map (\<lambda>r. hosp_row.extend r (timeseries_row.fields
            (if list_ex (\<lambda>row. min_glucose row < 3.9 \<and> admission_key r = admission_key row
                                \<and> date row < date r) daily_data
             then 1 else 0)))
       daily_data"

definition build_timeseries_dataset ::
  "(real \<Rightarrow> real) \<Rightarrow> glucose_row list \<Rightarrow> (string \<times> 's) list \<Rightarrow> 's timeseries_row list" where
  "build_timeseries_dataset round_2 df_glucose static =
     (let daily_data = process_glucose_data round_2 df_glucose
      in if daily_data = [] then []
         else trim_boundary_days (add_prehypo (add_hosp_day (merge_static daily_data static))))"

section \<open>Step 7: the two label views\<close>

text \<open>
  \<open>main\<close> writes the combined three-class table as it is, then builds the two-class
  table from a copy of it: \<open>outcome_HYPO = 1 if x == 0 else 0\<close> for every value of the
  column \<open>outcome\<close>, the old column dropped and the new one renamed \<open>outcome\<close>.
\<close>

definition outcome_HYPO :: "cell \<Rightarrow> cell" where
  "outcome_HYPO x = (if x = Num 0 then Num 1 else Num 0)"

definition hypo_binary_table :: "frame \<Rightarrow> error + frame" where
  "hypo_binary_table df_combined =
     (case map_of df_combined ''outcome'' of
        None \<Rightarrow> Inl KeyError
      | Some outcomes \<Rightarrow>
          Inr (rename_column ''outcome_HYPO'' ''outcome''
                (drop_columns [''outcome'']
                  (set_column ''outcome_HYPO'' (map outcome_HYPO outcomes) df_combined))))"

section \<open>Properties of the cohort filter\<close>

lemma select_mask_all_True:
  "length vs \<le> length msk \<Longrightarrow> \<forall>b \<in> set msk. b \<Longrightarrow> select_mask msk vs = vs"
proof (induction vs arbitrary: msk)
  case Nil
  then show ?case by (simp add: select_mask_def)
next
  case (Cons v vs)
  then obtain b bs where m: "msk = b # bs" by (cases msk) auto
  with Cons.prems have "select_mask bs vs = vs" by (intro Cons.IH) auto
  with m Cons.prems show ?case by (simp add: select_mask_def)
qed

lemma length_select_mask_le:
  "length (select_mask msk vs) \<le> length (filter id msk)"
proof (induction vs arbitrary: msk)
  case Nil
  then show ?case by (simp add: select_mask_def)
next
  case (Cons v vs)
  show ?case
  proof (cases msk)
    case Nil
    then show ?thesis by (simp add: select_mask_def)
  next
    case (Cons b bs)
    with Cons.IH [of bs] show ?thesis by (simp add: select_mask_def)
  qed
qed

lemma select_mask_isin:
  "select_mask (map Not (isin keys S)) keys = filter (\<lambda>k. k \<notin> S) keys"
  by (induction keys) (simp_all add: select_mask_def isin_def)

lemma length_select_mask_not_isin:
  "length (select_mask (map Not (isin keys S)) vs) \<le> length (filter (\<lambda>k. k \<notin> S) keys)"
proof (induction keys arbitrary: vs)
  case Nil
  show ?case by (simp add: select_mask_def isin_def)
next
  case (Cons k keys)
  show ?case
  proof (cases vs)
    case Nil
    then show ?thesis by (simp add: select_mask_def)
  next
    case (Cons v ws)
    with Cons.IH [of ws] show ?thesis
      by (auto simp: select_mask_def isin_def)
  qed
qed

lemma map_of_select_rows:
  "map_of (select_rows msk df) n = map_option (select_mask msk) (map_of df n)"
  by (induction df) (auto simp: select_rows_def)

lemma len_select_rows_all:
  assumes "rectangular df" and "map_of df ''admission_key'' = Some keys"
    and "\<forall>k \<in> set keys. k \<notin> S"
  shows "select_rows (map Not (isin keys S)) df = df"
proof -
  from assms(2) have "(''admission_key'', keys) \<in> set df" by (rule map_of_SomeD)
  with assms(1) have lk: "length keys = len df"
    by (auto simp: rectangular_def list_all_iff)
  have all: "\<forall>b \<in> set (map Not (isin keys S)). b"
    using assms(3) by (auto simp: isin_def)
  have "select_mask (map Not (isin keys S)) (snd c) = snd c" if "c \<in> set df" for c
  proof (rule select_mask_all_True [OF _ all])
    from assms(1) that have "length (snd c) = len df"
      by (auto simp: rectangular_def list_all_iff)
    with lk show "length (snd c) \<le> length (map Not (isin keys S))"
      by (simp add: isin_def)
  qed
  then have "map (\<lambda>c. (fst c, select_mask (map Not (isin keys S)) (snd c))) df = map (\<lambda>c. c) df"
    by (intro map_cong) simp_all
  then show ?thesis by (simp add: select_rows_def)
qed

lemma written_key_column:
  assumes "map_of df ''admission_key'' = Some keys"
  shows "map_of (select_rows (map Not (isin keys S)) df) ''admission_key''
           = Some (filter (\<lambda>k. k \<notin> S) keys)"
  using assms by (simp add: map_of_select_rows select_mask_isin)

lemma second_pass_on_file:
  assumes tables: "\<forall>file df. read_csv lib file = Some df \<longrightarrow> rectangular df"
    and reads: "\<forall>df. written_by_pass lib S file = Some df \<longrightarrow> key_column_reads_back lib df"
  defines "file1 \<equiv> fst (exclude_patients_from_file lib S file)"
  shows "exclude_patients_from_file lib S file1
           = (case read_csv lib file1 of
                None \<Rightarrow> file1
              | Some df1 \<Rightarrow>
                  (case map_of df1 ''admission_key'' of
                     None \<Rightarrow> file1
                   | Some keys1 \<Rightarrow> to_csv lib df1), 0)"
proof (cases "written_by_pass lib S file")
  case None
  then have same: "file1 = file"
    by (auto simp: file1_def exclude_patients_from_file_def written_by_pass_def
        split: option.splits)
  from None show ?thesis
    unfolding same
    by (auto simp: exclude_patients_from_file_def written_by_pass_def split: option.splits)
next
  case (Some dff)
  then obtain df keys where df: "read_csv lib file = Some df"
    and keys: "map_of df ''admission_key'' = Some keys"
    and dff: "dff = select_rows (map Not (isin keys S)) df"
    by (auto simp: written_by_pass_def split: option.splits)
  from df keys have f1: "file1 = to_csv lib dff"
    by (simp add: file1_def exclude_patients_from_file_def Let_def dff)
  show ?thesis
  proof (cases "read_csv lib file1")
    case None
    then show ?thesis by (simp add: exclude_patients_from_file_def)
  next
    case (Some df1)
    from reads Some have "key_column_reads_back lib dff"
      using \<open>written_by_pass lib S file = Some dff\<close> by blast
    with Some f1 have "map_of df1 ''admission_key'' = map_of dff ''admission_key''"
      by (simp add: key_column_reads_back_def)
    then have k1: "map_of df1 ''admission_key'' = Some (filter (\<lambda>k. k \<notin> S) keys)"
      unfolding dff using written_key_column [OF keys, of S] by simp
    from tables Some have rect: "rectangular df1" by blast
    have "select_rows (map Not (isin (filter (\<lambda>k. k \<notin> S) keys) S)) df1 = df1"
      by (rule len_select_rows_all [OF rect k1]) simp
    with Some k1 show ?thesis
      by (simp add: exclude_patients_from_file_def Let_def)
  qed
qed

lemma fst_exclude_all:
  "fst (exclude_patients_from_all_files lib csv_files S)
     = map (\<lambda>(name, file). (name, fst (exclude_patients_from_file lib S file))) csv_files"
  by (induction csv_files) (auto simp: split_beta Let_def)

lemma snd_exclude_all:
  "snd (exclude_patients_from_all_files lib csv_files S)
     = sum_list (map (\<lambda>(name, file). snd (exclude_patients_from_file lib S file)) csv_files)"
  by (induction csv_files) (auto simp: split_beta Let_def)

text \<open>
  C9. Re-run safety of the cohort filter, for key columns that read back as they were
  written. After one deletion pass over a directory with an exclusion set, a second pass
  with the same set reports 0 deleted rows in all and for each file, and what it writes
  for a file is the table it read from it.
\<close>

theorem cohort_filter_rerun_deletes_nothing:
  assumes "reads_tables lib" and "keys_read_back lib csv_files excluded_patients"
  defines "pass1 \<equiv> fst (exclude_patients_from_all_files lib csv_files excluded_patients)"
  shows "snd (exclude_patients_from_all_files lib pass1 excluded_patients) = 0
       \<and> (\<forall>(name, file1) \<in> set pass1.
            exclude_patients_from_file lib excluded_patients file1
              = (case read_csv lib file1 of
                   None \<Rightarrow> file1
                 | Some df1 \<Rightarrow>
                     (case map_of df1 ''admission_key'' of
                        None \<Rightarrow> file1
                      | Some keys1 \<Rightarrow> to_csv lib df1), 0))"
proof -
  have each: "exclude_patients_from_file lib excluded_patients file1
              = (case read_csv lib file1 of
                   None \<Rightarrow> file1
                 | Some df1 \<Rightarrow>
                     (case map_of df1 ''admission_key'' of
                        None \<Rightarrow> file1
                      | Some keys1 \<Rightarrow> to_csv lib df1), 0)"
    if "(name, file1) \<in> set pass1" for name file1
  proof -
    from that obtain file0 where f: "(name, file0) \<in> set csv_files"
      and f1: "file1 = fst (exclude_patients_from_file lib excluded_patients file0)"
      unfolding pass1_def fst_exclude_all by auto
    from assms(2) f
    have "\<forall>df. written_by_pass lib excluded_patients file0 = Some df \<longrightarrow> key_column_reads_back lib df"
      by (auto simp: keys_read_back_def list_all_iff)
    from second_pass_on_file [OF assms(1) [unfolded reads_tables_def] this]
    show ?thesis unfolding f1 .
  qed
  then have "snd (exclude_patients_from_file lib excluded_patients file1) = 0"
    if "(name, file1) \<in> set pass1" for name file1
    using that by simp
  then have "snd (exclude_patients_from_all_files lib pass1 excluded_patients) = 0"
    unfolding snd_exclude_all by (auto simp: sum_list_eq_0_iff)
  with each show ?thesis by auto
qed

lemma rectangular_infer: "rectangular df \<Longrightarrow> rectangular (map infer_column df)"
proof -
  have l: "length (snd (infer_column c)) = length (snd c)" for c
    by (simp add: infer_column_def)
  have "len (map infer_column df) = len df"
    by (cases df) (simp_all add: len_def l)
  moreover assume "rectangular df"
  ultimately show ?thesis
    by (simp add: rectangular_def list_all_iff l)
qed

lemma reads_tables_example: "reads_tables example_csv"
  by (auto simp: reads_tables_def example_csv_def rectangular_infer)

text \<open>
  A directory of three files under the example functions: a table of three rows with
  keys and ages, a table without a key column, and a file that does not read. The first
  pass deletes the row of the excluded key (and the ages read as numbers); the second
  pass deletes nothing.
\<close>

theorem cohort_filter_rerun_deletes_nothing_witness:
  "reads_tables example_csv
   \<and> keys_read_back example_csv
        [(''a.csv'', [(''admission_key'', [Txt ''P1_2020'', Txt ''P2_2021'', Txt ''P1_2020'']),
                    (''age'', [Txt ''63'', Txt ''70'', Txt ''63''])]),
         (''b.csv'', [(''age'', [Txt ''63''])]),
         (''c.csv'', [])] {Txt ''P2_2021''}
   \<and> exclude_patients_from_all_files example_csv
        [(''a.csv'', [(''admission_key'', [Txt ''P1_2020'', Txt ''P2_2021'', Txt ''P1_2020'']),
                    (''age'', [Txt ''63'', Txt ''70'', Txt ''63''])]),
         (''b.csv'', [(''age'', [Txt ''63''])]),
         (''c.csv'', [])] {Txt ''P2_2021''}
      = ([(''a.csv'', [(''admission_key'', [Txt ''P1_2020'', Txt ''P1_2020'']),
                    (''age'', [Num 63, Num 63])]),
         (''b.csv'', [(''age'', [Txt ''63''])]),
         (''c.csv'', [])], 1)
   \<and> exclude_patients_from_all_files example_csv
        [(''a.csv'', [(''admission_key'', [Txt ''P1_2020'', Txt ''P1_2020'']),
                    (''age'', [Num 63, Num 63])]),
         (''b.csv'', [(''age'', [Txt ''63''])]),
         (''c.csv'', [])] {Txt ''P2_2021''}
      = ([(''a.csv'', [(''admission_key'', [Txt ''P1_2020'', Txt ''P1_2020'']),
                    (''age'', [Num 63, Num 63])]),
         (''b.csv'', [(''age'', [Txt ''63''])]),
         (''c.csv'', [])], 0)"
proof -
  let ?files = "[(''a.csv'', [(''admission_key'', [Txt ''P1_2020'', Txt ''P2_2021'', Txt ''P1_2020'']),
                    (''age'', [Txt ''63'', Txt ''70'', Txt ''63''])]),
         (''b.csv'', [(''age'', [Txt ''63''])]),
         (''c.csv'', [])]"
  let ?pass1 = "[(''a.csv'', [(''admission_key'', [Txt ''P1_2020'', Txt ''P1_2020'']),
                    (''age'', [Num 63, Num 63])]),
         (''b.csv'', [(''age'', [Txt ''63''])]),
         (''c.csv'', [])]"
  let ?S = "{Txt ''P2_2021''}"
  have rd: "read_csv example_csv [(''admission_key'', [Txt ''P1_2020'', Txt ''P2_2021'', Txt ''P1_2020'']),
                    (''age'', [Txt ''63'', Txt ''70'', Txt ''63''])]
      = Some [(''admission_key'', [Txt ''P1_2020'', Txt ''P2_2021'', Txt ''P1_2020'']),
         (''age'', [Num 63, Num 70, Num 63])]"
    "read_csv example_csv [(''age'', [Txt ''63''])] = Some [(''age'', [Num 63])]"
    "read_csv example_csv [] = None"
    "read_csv example_csv [(''admission_key'', [Txt ''P1_2020'', Txt ''P1_2020'']),
                    (''age'', [Num 63, Num 63])]
      = Some [(''admission_key'', [Txt ''P1_2020'', Txt ''P1_2020'']), (''age'', [Num 63, Num 63])]"
    "to_csv example_csv = (\<lambda>df. df)"
    unfolding example_csv_def
    by (simp_all add: infer_column_def is_digits_def digits_value_def rectangular_def len_def)
  have h2: "keys_read_back example_csv ?files ?S"
    by (simp add: keys_read_back_def written_by_pass_def key_column_reads_back_def rd
        select_rows_def select_mask_def isin_def)
  have p1: "exclude_patients_from_all_files example_csv ?files ?S = (?pass1, 1)"
    by (simp add: exclude_patients_from_file_def rd select_rows_def select_mask_def isin_def
        len_def)
  from cohort_filter_rerun_deletes_nothing [OF reads_tables_example h2]
  have z: "snd (exclude_patients_from_all_files example_csv ?pass1 ?S) = 0"
    and each: "\<forall>(name, file1) \<in> set ?pass1.
            exclude_patients_from_file example_csv ?S file1
              = (case read_csv example_csv file1 of
                   None \<Rightarrow> file1
                 | Some df1 \<Rightarrow>
                     (case map_of df1 ''admission_key'' of
                        None \<Rightarrow> file1
                      | Some keys1 \<Rightarrow> to_csv example_csv df1), 0)"
    unfolding p1 fst_conv by (rule conjunct1, rule conjunct2)
  have "fst (exclude_patients_from_all_files example_csv ?pass1 ?S) = ?pass1"
    unfolding fst_exclude_all using each by (simp add: rd)
  with z have p2: "exclude_patients_from_all_files example_csv ?pass1 ?S = (?pass1, 0)"
    by (simp add: prod_eq_iff)
  from reads_tables_example h2 p1 p2 show ?thesis by (intro conjI)
qed

section \<open>The day-boundary rule\<close>

lemma mod_400_100: "(n::nat) mod 400 = 0 \<Longrightarrow> n mod 100 = 0"
proof -
  assume "n mod 400 = 0"
  hence "400 dvd n" by (simp add: mod_eq_0_iff_dvd)
  moreover have "(100::nat) dvd 400" by simp
  ultimately have "100 dvd n" by (rule dvd_trans [rotated])
  thus ?thesis by (simp add: mod_eq_0_iff_dvd)
qed

lemma mod_100_4: "(n::nat) mod 100 = 0 \<Longrightarrow> n mod 4 = 0"
proof -
  assume "n mod 100 = 0"
  hence "100 dvd n" by (simp add: mod_eq_0_iff_dvd)
  moreover have "(4::nat) dvd 100" by simp
  ultimately have "4 dvd n" by (rule dvd_trans [rotated])
  thus ?thesis by (simp add: mod_eq_0_iff_dvd)
qed

lemma days_before_year_Suc_Suc:
  "days_before_year (Suc (Suc p)) = days_before_year (Suc p) + (if is_leap (Suc p) then 366 else 365)"
proof -
  have a: "int (Suc (Suc p)) - 1 = int (Suc p)" by simp
  have b: "int (Suc p) - 1 = int p" by simp
  have d: "\<And>n k. int n div int k = int (n div k)" by (simp add: zdiv_int)
  have e: "int (Suc p) * 365 + int (Suc p div 4) - int (Suc p div 100) + int (Suc p div 400)
      = int p * 365 + int (p div 4) - int (p div 100) + int (p div 400) + (if is_leap (Suc p) then 366 else 365)"
    using mod_400_100 [of "Suc p"] mod_100_4 [of "Suc p"]
    unfolding is_leap_def div_Suc [of p 4] div_Suc [of p 100] div_Suc [of p 400]
    by (cases "Suc p mod 4 = 0"; cases "Suc p mod 100 = 0"; cases "Suc p mod 400 = 0")
       (simp_all del: mod_Suc_eq)
  show ?thesis
    unfolding days_before_year_def Let_def a b
    using e d [of "Suc p" 4] d [of "Suc p" 100] d [of "Suc p" 400] d [of p 4] d [of p 100] d [of p 400]
    by (simp del: of_nat_Suc of_nat_div)
qed

lemma days_before_year_Suc:
  "days_before_year (Suc y) = days_before_year y + (if is_leap y then 366 else 365)"
proof (cases y)
  case 0
  show ?thesis unfolding 0 by (simp add: days_before_year_def is_leap_def)
next
  case (Suc p)
  show ?thesis unfolding Suc by (rule days_before_year_Suc_Suc)
qed

lemma days_before_month_step:
  assumes "1 < m" "m \<le> 12"
  shows "days_before_month y (m - 1) + int (days_in_month y (m - 1)) = days_before_month y m"
proof -
  from assms consider "m = 2" | "m = 3" | "m = 4" | "m = 5" | "m = 6" | "m = 7" | "m = 8"
    | "m = 9" | "m = 10" | "m = 11" | "m = 12"
    by atomize_elim arith
  thus ?thesis
    by cases (simp_all add: days_before_month_def days_in_month_def)
qed

lemma days_in_month_pos: "1 \<le> days_in_month y m"
  by (simp add: days_in_month_def)

lemma minus_one_day_previous:
  assumes "1 \<le> year t" "valid_date t"
  shows "valid_date (minus_one_day t) \<and> toordinal (minus_one_day t) = toordinal t - 1
         \<and> hour (minus_one_day t) = hour t \<and> minute (minus_one_day t) = minute t
         \<and> second (minus_one_day t) = second t"
proof -
  from assms(2) have m: "1 \<le> month t" "month t \<le> 12" and d: "1 \<le> day t"
    and dm: "day t \<le> days_in_month (year t) (month t)"
    by (simp_all add: valid_date_def)
  consider (a) "1 < day t" | (b) "day t = 1" "1 < month t" | (c) "day t = 1" "month t = 1"
    using m d by linarith
  thus ?thesis
  proof cases
    case a
    hence "valid_date (minus_one_day t)" using m dm
      by (simp add: minus_one_day_def valid_date_def) arith
    moreover have "toordinal (minus_one_day t) = toordinal t - 1" using a
      by (simp add: minus_one_day_def toordinal_def)
    ultimately show ?thesis using a by (simp add: minus_one_day_def)
  next
    case b
    have "valid_date (minus_one_day t)"
      using b m days_in_month_pos [of "year t" "month t - 1"]
      by (simp add: minus_one_day_def valid_date_def) arith
    moreover have "toordinal (minus_one_day t) = toordinal t - 1"
      using b days_before_month_step [of "month t" "year t"] m
      by (simp add: minus_one_day_def toordinal_def)
    ultimately show ?thesis using b by (simp add: minus_one_day_def)
  next
    case c
    from assms(1) obtain p where y: "year t = Suc p" by (cases "year t") simp_all
    have "valid_date (minus_one_day t)"
      using c by (simp add: minus_one_day_def valid_date_def days_in_month_def)
    moreover have "toordinal (minus_one_day t) = toordinal t - 1"
      using c y days_before_year_Suc [of p]
      by (simp add: minus_one_day_def toordinal_def days_before_month_def)
    ultimately show ?thesis using c by (simp add: minus_one_day_def)
  qed
qed

lemma update_column_nth:
  "i < length df \<Longrightarrow>
   update_column col f df ! i = (if fst (df ! i) = col then (fst (df ! i), f (snd (df ! i))) else df ! i)"
  by (simp add: update_column_def)

lemma update_column_names: "map fst (update_column col f df) = map fst df"
  by (simp add: update_column_def comp_def)

lemma length_update_column: "length (update_column col f df) = length df"
  by (simp add: update_column_def)

lemma convert_columns_nth:
  "distinct cols \<Longrightarrow> i < length df \<Longrightarrow>
   fst (convert_columns lib cols df) ! i
     = (if fst (df ! i) \<in> set cols then (fst (df ! i), convert_column lib (snd (df ! i))) else df ! i)"
proof (induction cols arbitrary: df)
  case Nil
  show ?case by simp
next
  case (Cons col cols)
  let ?df' = "update_column col (convert_column lib) df"
  from Cons.prems have d: "distinct cols" and n: "col \<notin> set cols" by simp_all
  from Cons.prems have i: "i < length ?df'" by (simp add: length_update_column)
  have eq: "fst (convert_columns lib (col # cols) df) = fst (convert_columns lib cols ?df')"
    by (simp add: Let_def split: prod.splits)
  show ?case
    unfolding eq Cons.IH [OF d i] update_column_nth [OF Cons.prems(2)]
    using n by auto
qed

lemma process_datetime_columns_nth:
  assumes "distinct (columns df)" "i < length df"
  shows "fst (process_datetime_columns lib df) ! i
     = (if is_datetime_column lib (df ! i) then (fst (df ! i), convert_column lib (snd (df ! i)))
        else df ! i)"
proof -
  let ?cols = "map fst (filter (is_datetime_column lib) df)"
  from assms(1) have dist: "distinct ?cols"
    by (simp add: columns_def distinct_map_filter)
  have mem: "fst (df ! i) \<in> set ?cols \<longleftrightarrow> is_datetime_column lib (df ! i)"
  proof
    assume "fst (df ! i) \<in> set ?cols"
    then obtain c where c: "c \<in> set df" "is_datetime_column lib c" "fst c = fst (df ! i)"
      by auto
    from assms have "inj_on fst (set df)" by (simp add: columns_def distinct_map)
    with c assms(2) have "c = df ! i" by (simp add: inj_on_def)
    with c show "is_datetime_column lib (df ! i)" by simp
  next
    assume "is_datetime_column lib (df ! i)"
    with assms(2) show "fst (df ! i) \<in> set ?cols" by force
  qed
  show ?thesis
  proof (cases "?cols = []")
    case True
    hence "\<not> is_datetime_column lib (df ! i)" using mem by simp
    with True show ?thesis by (simp add: process_datetime_columns_def)
  next
    case False
    hence "fst (process_datetime_columns lib df) = fst (convert_columns lib ?cols df)"
      by (simp add: process_datetime_columns_def)
    thus ?thesis using convert_columns_nth [OF dist assms(2), of lib] mem by simp
  qed
qed

text \<open>
  C2. Every value of a column that \<open>_process_datetime_columns\<close> treats as a timestamp
  column is replaced by the date of its parsed timestamp, written \<open>YYYY-MM-DD\<close>, and
  the date is that of the day before when the hour is below 8 (a value that does not
  parse becomes missing); the day before is the previous calendar date, at the same time
  of day. A timestamp \<open>2024-01-02 07:59:00\<close> gives \<open>2024-01-01\<close>, and
  \<open>2024-01-02 08:00:00\<close> gives \<open>2024-01-02\<close>.
\<close>

theorem day_boundary_rule:
  assumes "distinct (columns df)" "i < length df" "is_datetime_column lib (df ! i)"
    and "length (to_datetime lib (clean_column lib (snd (df ! i)))) = length (snd (df ! i))"
    and "j < length (snd (df ! i))"
  shows "fst (fst (process_datetime_columns lib df) ! i) = fst (df ! i)
    \<and> length (snd (fst (process_datetime_columns lib df) ! i)) = length (snd (df ! i))
    \<and> snd (fst (process_datetime_columns lib df) ! i) ! j
        = (case to_datetime lib (clean_column lib (snd (df ! i))) ! j of
             None \<Rightarrow> NaN
           | Some t \<Rightarrow> Txt (strftime_ymd (if hour t < 8 then minus_one_day t else t)))
    \<and> (\<forall>t. 1 \<le> year t \<and> valid_date t \<longrightarrow>
          valid_date (minus_one_day t) \<and> toordinal (minus_one_day t) = toordinal t - 1
          \<and> hour (minus_one_day t) = hour t \<and> minute (minus_one_day t) = minute t
          \<and> second (minus_one_day t) = second t)
    \<and> date_8_8 (Some \<lparr>year = 2024, month = 1, day = 2, hour = 7, minute = 59, second = 0\<rparr>)
        = Txt ''2024-01-01''
    \<and> date_8_8 (Some \<lparr>year = 2024, month = 1, day = 2, hour = 8, minute = 0, second = 0\<rparr>)
        = Txt ''2024-01-02''"
proof (intro conjI allI impI)
  note col = process_datetime_columns_nth [OF assms(1,2), of lib]
  show "fst (fst (process_datetime_columns lib df) ! i) = fst (df ! i)"
    using col assms(3) by simp
  show "length (snd (fst (process_datetime_columns lib df) ! i)) = length (snd (df ! i))"
    using col assms(3,4) by (simp add: convert_column_def)
  show "snd (fst (process_datetime_columns lib df) ! i) ! j
        = (case to_datetime lib (clean_column lib (snd (df ! i))) ! j of
             None \<Rightarrow> NaN
           | Some t \<Rightarrow> Txt (strftime_ymd (if hour t < 8 then minus_one_day t else t)))"
    using col assms(3,4,5)
    by (simp add: convert_column_def date_8_8_def shift_early_def split: option.splits)
  show "date_8_8 (Some \<lparr>year = 2024, month = 1, day = 2, hour = 7, minute = 59, second = 0\<rparr>)
        = Txt ''2024-01-01''"
    by (simp add: date_8_8_def shift_early_def minus_one_day_def strftime_ymd_def digit_def
        days_in_month_def)
  show "date_8_8 (Some \<lparr>year = 2024, month = 1, day = 2, hour = 8, minute = 0, second = 0\<rparr>)
        = Txt ''2024-01-02''"
    by (simp add: date_8_8_def shift_early_def strftime_ymd_def digit_def)
next
  fix t :: timestamp
  assume "1 \<le> year t \<and> valid_date t"
  hence *: "valid_date (minus_one_day t) \<and> toordinal (minus_one_day t) = toordinal t - 1
         \<and> hour (minus_one_day t) = hour t \<and> minute (minus_one_day t) = minute t
         \<and> second (minus_one_day t) = second t"
    using minus_one_day_previous [of t] by simp
  from * show "valid_date (minus_one_day t)" by simp
  from * show "toordinal (minus_one_day t) = toordinal t - 1" by simp
  from * show "hour (minus_one_day t) = hour t" by simp
  from * show "minute (minus_one_day t) = minute t" by simp
  from * show "second (minus_one_day t) = second t" by simp
qed

text \<open>
  The rule at a table with a key column and the timestamp column \<open>Exam_Time\<close> holding
  \<open>2024-03-01 00:30:00\<close> behind a tab, and a missing value: the first becomes
  \<open>2024-02-29\<close>, the second stays missing.
\<close>

theorem day_boundary_rule_witness:
  "distinct (columns [(''admission_key'', [Txt ''E1'', Txt ''E1'']),
        (''Exam_Time'', [Txt (CHR 0x09 # ''2024-03-01 00:30:00''), NaN])])
   \<and> 1 < length [(''admission_key'', [Txt ''E1'', Txt ''E1'']),
        (''Exam_Time'', [Txt (CHR 0x09 # ''2024-03-01 00:30:00''), NaN])]
   \<and> is_datetime_column
        \<lparr>str_lower = ascii_lower,
          astype_str = (\<lambda>c. case c of Txt s \<Rightarrow> s | Num x \<Rightarrow> ''0'' | NaN \<Rightarrow> ''nan''),
          str_strip = (\<lambda>s. s),
          to_datetime = map (\<lambda>s. if s = ''2024-03-01 00:30:00''
             then Some \<lparr>year = 2024, month = 3, day = 1, hour = 0, minute = 30, second = 0\<rparr>
             else None)\<rparr>
        ([(''admission_key'', [Txt ''E1'', Txt ''E1'']),
        (''Exam_Time'', [Txt (CHR 0x09 # ''2024-03-01 00:30:00''), NaN])] ! 1)
   \<and> fst (process_datetime_columns
        \<lparr>str_lower = ascii_lower,
          astype_str = (\<lambda>c. case c of Txt s \<Rightarrow> s | Num x \<Rightarrow> ''0'' | NaN \<Rightarrow> ''nan''),
          str_strip = (\<lambda>s. s),
          to_datetime = map (\<lambda>s. if s = ''2024-03-01 00:30:00''
             then Some \<lparr>year = 2024, month = 3, day = 1, hour = 0, minute = 30, second = 0\<rparr>
             else None)\<rparr>
        [(''admission_key'', [Txt ''E1'', Txt ''E1'']),
        (''Exam_Time'', [Txt (CHR 0x09 # ''2024-03-01 00:30:00''), NaN])])
      = [(''admission_key'', [Txt ''E1'', Txt ''E1'']), (''Exam_Time'', [Txt ''2024-02-29'', NaN])]
   \<and> snd (fst (process_datetime_columns
        \<lparr>str_lower = ascii_lower,
          astype_str = (\<lambda>c. case c of Txt s \<Rightarrow> s | Num x \<Rightarrow> ''0'' | NaN \<Rightarrow> ''nan''),
          str_strip = (\<lambda>s. s),
          to_datetime = map (\<lambda>s. if s = ''2024-03-01 00:30:00''
             then Some \<lparr>year = 2024, month = 3, day = 1, hour = 0, minute = 30, second = 0\<rparr>
             else None)\<rparr>
        [(''admission_key'', [Txt ''E1'', Txt ''E1'']),
        (''Exam_Time'', [Txt (CHR 0x09 # ''2024-03-01 00:30:00''), NaN])]) ! 1) ! 0 = Txt ''2024-02-29''
   \<and> 1 \<le> year \<lparr>year = 2024, month = 3, day = 1, hour = 0, minute = 30, second = 0\<rparr>
   \<and> valid_date \<lparr>year = 2024, month = 3, day = 1, hour = 0, minute = 30, second = 0\<rparr>
   \<and> minus_one_day \<lparr>year = 2024, month = 3, day = 1, hour = 0, minute = 30, second = 0\<rparr>
      = \<lparr>year = 2024, month = 2, day = 29, hour = 0, minute = 30, second = 0\<rparr>
   \<and> toordinal (minus_one_day \<lparr>year = 2024, month = 3, day = 1, hour = 0, minute = 30, second = 0\<rparr>) = toordinal \<lparr>year = 2024, month = 3, day = 1, hour = 0, minute = 30, second = 0\<rparr> - 1"
proof -
  let ?lib = "\<lparr>str_lower = ascii_lower,
          astype_str = (\<lambda>c. case c of Txt s \<Rightarrow> s | Num x \<Rightarrow> ''0'' | NaN \<Rightarrow> ''nan''),
          str_strip = (\<lambda>s. s),
          to_datetime = map (\<lambda>s. if s = ''2024-03-01 00:30:00''
             then Some \<lparr>year = 2024, month = 3, day = 1, hour = 0, minute = 30, second = 0\<rparr>
             else None)\<rparr>"
  let ?df = "[(''admission_key'', [Txt ''E1'', Txt ''E1'']),
        (''Exam_Time'', [Txt (CHR 0x09 # ''2024-03-01 00:30:00''), NaN])]"
  let ?t = "\<lparr>year = 2024, month = 3, day = 1, hour = 0, minute = 30, second = 0\<rparr>"
  have h1: "distinct (columns ?df)" by (simp add: columns_def)
  have h2: "1 < length ?df" by simp
  have h3: "is_datetime_column ?lib (?df ! 1)"
    by (simp add: is_datetime_column_def ascii_lower_def lower_char_def exclude_patterns_def)
  have h4: "length (to_datetime ?lib (clean_column ?lib (snd (?df ! 1)))) = length (snd (?df ! 1))"
    by (simp add: clean_column_def)
  have h5: "0 < length (snd (?df ! 1))" by simp
  have v: "1 \<le> year ?t \<and> valid_date ?t"
    by (simp add: valid_date_def days_in_month_def)
  have m: "minus_one_day ?t
      = \<lparr>year = 2024, month = 2, day = 29, hour = 0, minute = 30, second = 0\<rparr>"
    by (simp add: minus_one_day_def days_in_month_def is_leap_def)
  note r = day_boundary_rule [OF h1 h2 h3 h4 h5]
  from r have c: "snd (fst (process_datetime_columns ?lib ?df) ! 1) ! 0 = Txt ''2024-02-29''"
    by (simp add: clean_column_def remove_tabs_def minus_one_day_def days_in_month_def
        is_leap_def strftime_ymd_def digit_def)
  from r v have o: "toordinal (minus_one_day ?t) = toordinal ?t - 1" by blast
  have p: "fst (process_datetime_columns ?lib ?df)
      = [(''admission_key'', [Txt ''E1'', Txt ''E1'']), (''Exam_Time'', [Txt ''2024-02-29'', NaN])]"
    by (simp add: process_datetime_columns_def is_datetime_column_def ascii_lower_def lower_char_def
        exclude_patterns_def update_column_def convert_column_def clean_column_def
        remove_tabs_def date_8_8_def shift_early_def minus_one_day_def days_in_month_def
        is_leap_def strftime_ymd_def digit_def)
  show ?thesis using h1 h2 h3 v m o p c by simp
qed

section \<open>Properties of the fasting windows\<close>



lemma fasting_periods_of_Inr:
  "fasting_periods_of lib rows = Inr periods \<Longrightarrow>
   map fst periods = map admission_key rows
   \<and> map (\<lambda>p. Inr (snd p)) periods = map (fasting_period lib) rows"
proof (induction rows arbitrary: periods)
  case Nil
  then show ?case by simp
next
  case (Cons r rows)
  then show ?case by (auto split: sum.splits)
qed









section \<open>Properties of the next-day label\<close>

lemma map_filter_concat:
  "List.map_filter h (concat xss) = concat (map (List.map_filter h) xss)"
  by (induction xss) (simp_all add: List.map_filter_def)

lemma distinct_key_neq:
  assumes "distinct (map kd (a # D))" and "x \<in> set D"
  shows "kd x \<noteq> kd a"
proof -
  from assms(1) have "kd a \<notin> kd ` set D" by simp
  with assms(2) show ?thesis by (metis imageI)
qed

lemma filter_concat_map_key:
  assumes "distinct (map kd D)" and "r \<in> set D"
    and "\<And>r' l. r' \<in> set D \<Longrightarrow> l \<in> set (F r') \<Longrightarrow> kd' l = kd r'"
  shows "filter (\<lambda>l. kd' l = kd r) (concat (map F D)) = F r"
  using assms
proof (induction D)
  case Nil
  then show ?case by simp
next
  case (Cons a D)
  show ?case
  proof (cases "a = r")
    case True
    have here: "filter (\<lambda>l. kd' l = kd r) (F r) = F r"
      using Cons.prems(3) [of r] by (simp add: True)
    have "filter (\<lambda>l. kd' l = kd r) (F r') = []" if "r' \<in> set D" for r'
    proof -
      from distinct_key_neq [OF Cons.prems(1) that] True have "kd r' \<noteq> kd r" by simp
      with Cons.prems(3) [of r'] that show ?thesis by (auto simp: filter_empty_conv)
    qed
    then have "filter (\<lambda>l. kd' l = kd r) (concat (map F D)) = []"
      by (induction D) simp_all
    with here True show ?thesis by simp
  next
    case False
    with Cons.prems have r: "r \<in> set D" and d: "distinct (map kd D)" by auto
    from distinct_key_neq [OF Cons.prems(1) r] have "kd a \<noteq> kd r" by simp
    with Cons.prems(3) [of a] have "filter (\<lambda>l. kd' l = kd r) (F a) = []"
      by (auto simp: filter_empty_conv)
    moreover have "filter (\<lambda>l. kd' l = kd r) (concat (map F D)) = F r"
      using d r Cons.prems(3) by (intro Cons.IH) auto
    ultimately show ?thesis by simp
  qed
qed

lemma filter_key_distinct:
  assumes "distinct (map kd D)" and "n \<in> set D"
  shows "filter (\<lambda>m. kd m = kd n) D = [n]"
  using assms
proof (induction D)
  case Nil
  then show ?case by simp
next
  case (Cons a D)
  show ?case
  proof (cases "a = n")
    case True
    from distinct_key_neq [OF Cons.prems(1)] True
    have "filter (\<lambda>m. kd m = kd n) D = []"
      by (simp add: filter_empty_conv)
    with True show ?thesis by simp
  next
    case False
    with Cons.prems have n: "n \<in> set D" and d: "distinct (map kd D)" by auto
    from distinct_key_neq [OF Cons.prems(1) n] have "kd a \<noteq> kd n" by simp
    with Cons.IH [OF d n] show ?thesis by simp
  qed
qed

lemma key_date_with_outcome [simp]: "key_date (with_outcome r c) = key_date r"
  by (simp add: key_date_def with_outcome_def daily_glucose.extend_def)

lemma key_date_daily_of [simp]: "key_date (daily_of round_2 g vs) = g"
  by (simp add: key_date_def daily_of_def)

lemma distinct_daily_glucose_stats:
  "distinct (map key_date (daily_glucose_stats round_2 df_glucose))"
  by (simp add: daily_glucose_stats_def Let_def comp_def)

lemma label_next_day_rows:
  "label_next_day daily = concat (map (labelled_rows daily) daily)"
  by (simp add: label_next_day_def merge_next_day_def map_filter_concat
      labelled_rows_def [abs_def] comp_def)

lemma key_date_labelled_rows:
  "l \<in> set (labelled_rows daily r) \<Longrightarrow> key_date l = key_date r"
  by (auto simp: labelled_rows_def List.map_filter_def split: list.splits)

lemma rows_of_day:
  assumes "distinct (map key_date daily)" and "r \<in> set daily"
  shows "filter (\<lambda>l. key_date l = key_date r) (label_next_day daily) = labelled_rows daily r"
  unfolding label_next_day_rows
  using assms key_date_labelled_rows by (rule filter_concat_map_key)

lemma labelled_rows_next:
  assumes "distinct (map key_date daily)" and "n \<in> set daily"
    and "admission_key n = admission_key r" and "date n = date r + 1"
  shows "labelled_rows daily r =
           [with_outcome r (if min_glucose n < 3.9 then 0 else if 13.9 < max_glucose n then 2 else 1)]"
proof -
  have eq: "(\<lambda>m::daily_glucose. admission_key m = admission_key r \<and> date m = date r + 1)
          = (\<lambda>m. key_date m = key_date n)"
    using assms(3,4) by (auto simp: key_date_def fun_eq_iff)
  have "filter (\<lambda>m. admission_key m = admission_key r \<and> date m = date r + 1) daily = [n]"
    unfolding eq by (rule filter_key_distinct [OF assms(1,2)])
  then show ?thesis
    by (simp add: labelled_rows_def classify_outcome_def List.map_filter_def)
qed

lemma with_outcome_fields:
  "outcome (with_outcome r c) = c \<and> admission_key (with_outcome r c) = admission_key r
   \<and> date (with_outcome r c) = date r \<and> min_glucose (with_outcome r c) = min_glucose r
   \<and> max_glucose (with_outcome r c) = max_glucose r
   \<and> mean_glucose (with_outcome r c) = mean_glucose r
   \<and> std_glucose (with_outcome r c) = std_glucose r
   \<and> count_glucose (with_outcome r c) = count_glucose r
   \<and> cv_glucose (with_outcome r c) = cv_glucose r"
  by (simp add: with_outcome_def daily_glucose.extend_def labelled_day.fields_def)

lemma labelled_rows_no_next:
  assumes "\<not> (\<exists>n \<in> set daily. admission_key n = admission_key r \<and> date n = date r + 1)"
  shows "labelled_rows daily r = []"
proof -
  from assms
  have "filter (\<lambda>m. admission_key m = admission_key r \<and> date m = date r + 1) daily = []"
    by (auto simp: filter_empty_conv)
  then show ?thesis
    by (simp add: labelled_rows_def classify_outcome_def List.map_filter_def)
qed

text \<open>
  C1. For a row of the daily glucose table whose EpisodeKey has a row on the next
  calendar date, the output holds exactly one row of that (EpisodeKey, date): its outcome
  is 0 (hypoglycemia) if the next day's minimum is below 3.9, else 2 (hyperglycemia) if
  the next day's maximum is above 13.9, else 1 (normal), so that a next day with both a
  minimum below 3.9 and a maximum above 13.9 gives 0; its other columns are those of the
  daily row. A row whose EpisodeKey has no row on the next calendar date has no row in
  the output.
\<close>

theorem next_day_outcome_label:
  assumes "r \<in> set (daily_glucose_stats round_2 df_glucose)"
  shows "(\<forall>n \<in> set (daily_glucose_stats round_2 df_glucose).
            admission_key n = admission_key r \<and> date n = date r + 1 \<longrightarrow>
            (\<exists>l. filter (\<lambda>l. admission_key l = admission_key r \<and> date l = date r)
                   (process_glucose_data round_2 df_glucose) = [l]
               \<and> outcome l = (if min_glucose n < 3.9 then 0
                              else if 13.9 < max_glucose n then 2 else 1)
               \<and> (min_glucose n < 3.9 \<and> 13.9 < max_glucose n \<longrightarrow> outcome l = 0)
               \<and> admission_key l = admission_key r \<and> date l = date r
               \<and> min_glucose l = min_glucose r \<and> max_glucose l = max_glucose r
               \<and> mean_glucose l = mean_glucose r \<and> std_glucose l = std_glucose r
               \<and> count_glucose l = count_glucose r \<and> cv_glucose l = cv_glucose r))
       \<and> (\<not> (\<exists>n \<in> set (daily_glucose_stats round_2 df_glucose).
                 admission_key n = admission_key r \<and> date n = date r + 1) \<longrightarrow>
            filter (\<lambda>l. admission_key l = admission_key r \<and> date l = date r)
                (process_glucose_data round_2 df_glucose) = [])"
proof (intro conjI ballI impI)
  let ?daily = "daily_glucose_stats round_2 df_glucose"
  have eq: "(\<lambda>l::labelled_day. admission_key l = admission_key r \<and> date l = date r)
              = (\<lambda>l. key_date l = key_date r)"
    by (auto simp: key_date_def fun_eq_iff)
  have rows: "filter (\<lambda>l. admission_key l = admission_key r \<and> date l = date r)
                (process_glucose_data round_2 df_glucose) = labelled_rows ?daily r"
    unfolding eq process_glucose_data_def
    by (rule rows_of_day [OF distinct_daily_glucose_stats assms])
  {
    fix n
    assume n: "n \<in> set ?daily" and nx: "admission_key n = admission_key r \<and> date n = date r + 1"
    let ?c = "if min_glucose n < 3.9 then 0 else if 13.9 < max_glucose n then 2 else (1 :: nat)"
    from nx have k: "admission_key n = admission_key r" and d: "date n = date r + 1"
      by simp_all
    have one: "filter (\<lambda>l. admission_key l = admission_key r \<and> date l = date r)
                 (process_glucose_data round_2 df_glucose) = [with_outcome r ?c]"
      unfolding rows by (rule labelled_rows_next [OF distinct_daily_glucose_stats n k d])
    have both: "min_glucose n < 3.9 \<and> 13.9 < max_glucose n \<longrightarrow> outcome (with_outcome r ?c) = 0"
      by (simp add: with_outcome_fields)
    show "\<exists>l. filter (\<lambda>l. admission_key l = admission_key r \<and> date l = date r)
                   (process_glucose_data round_2 df_glucose) = [l]
               \<and> outcome l = (if min_glucose n < 3.9 then 0
                              else if 13.9 < max_glucose n then 2 else 1)
               \<and> (min_glucose n < 3.9 \<and> 13.9 < max_glucose n \<longrightarrow> outcome l = 0)
               \<and> admission_key l = admission_key r \<and> date l = date r
               \<and> min_glucose l = min_glucose r \<and> max_glucose l = max_glucose r
               \<and> mean_glucose l = mean_glucose r \<and> std_glucose l = std_glucose r
               \<and> count_glucose l = count_glucose r \<and> cv_glucose l = cv_glucose r"
    proof (intro exI [of _ "with_outcome r ?c"] conjI)
      show "filter (\<lambda>l. admission_key l = admission_key r \<and> date l = date r)
                   (process_glucose_data round_2 df_glucose) = [with_outcome r ?c]"
        by (rule one)
      show "min_glucose n < 3.9 \<and> 13.9 < max_glucose n \<longrightarrow> outcome (with_outcome r ?c) = 0"
        by (rule both)
    qed (simp_all only: with_outcome_fields)
  }
  assume "\<not> (\<exists>n \<in> set ?daily. admission_key n = admission_key r \<and> date n = date r + 1)"
  then show "filter (\<lambda>l. admission_key l = admission_key r \<and> date l = date r)
                (process_glucose_data round_2 df_glucose) = []"
    unfolding rows by (rule labelled_rows_no_next)
qed

text \<open>
  Four days of one EpisodeKey: the measurements 5 and 10, then 3 and 14 (below 3.9 and
  above 13.9), then 5 and 14, then 6. The first day is labelled 0, the second 2, the
  third 1, and the fourth, which has no next day, is not in the output.
\<close>

theorem next_day_outcome_label_witness:
  "map (\<lambda>l. (outcome l, min_glucose l, max_glucose l))
     (filter (\<lambda>l. admission_key l = ''E1'' \<and> date l = 738946)
        (process_glucose_data round2
           [\<lparr>admission_key = ''E1'', exam_date = Some 738946, blood_sugar = Some 5\<rparr>,
            \<lparr>admission_key = ''E1'', exam_date = Some 738946, blood_sugar = Some 10\<rparr>,
            \<lparr>admission_key = ''E1'', exam_date = Some 738947, blood_sugar = Some 3\<rparr>,
            \<lparr>admission_key = ''E1'', exam_date = Some 738947, blood_sugar = Some 14\<rparr>,
            \<lparr>admission_key = ''E1'', exam_date = Some 738948, blood_sugar = Some 5\<rparr>,
            \<lparr>admission_key = ''E1'', exam_date = Some 738948, blood_sugar = Some 14\<rparr>,
            \<lparr>admission_key = ''E1'', exam_date = Some 738949, blood_sugar = Some 6\<rparr>])) = [(0, 5, 10)]
   \<and> map (\<lambda>l. (outcome l, min_glucose l, max_glucose l))
     (filter (\<lambda>l. admission_key l = ''E1'' \<and> date l = 738947)
        (process_glucose_data round2
           [\<lparr>admission_key = ''E1'', exam_date = Some 738946, blood_sugar = Some 5\<rparr>,
            \<lparr>admission_key = ''E1'', exam_date = Some 738946, blood_sugar = Some 10\<rparr>,
            \<lparr>admission_key = ''E1'', exam_date = Some 738947, blood_sugar = Some 3\<rparr>,
            \<lparr>admission_key = ''E1'', exam_date = Some 738947, blood_sugar = Some 14\<rparr>,
            \<lparr>admission_key = ''E1'', exam_date = Some 738948, blood_sugar = Some 5\<rparr>,
            \<lparr>admission_key = ''E1'', exam_date = Some 738948, blood_sugar = Some 14\<rparr>,
            \<lparr>admission_key = ''E1'', exam_date = Some 738949, blood_sugar = Some 6\<rparr>])) = [(2, 3, 14)]
   \<and> map (\<lambda>l. (outcome l, min_glucose l, max_glucose l))
     (filter (\<lambda>l. admission_key l = ''E1'' \<and> date l = 738948)
        (process_glucose_data round2
           [\<lparr>admission_key = ''E1'', exam_date = Some 738946, blood_sugar = Some 5\<rparr>,
            \<lparr>admission_key = ''E1'', exam_date = Some 738946, blood_sugar = Some 10\<rparr>,
            \<lparr>admission_key = ''E1'', exam_date = Some 738947, blood_sugar = Some 3\<rparr>,
            \<lparr>admission_key = ''E1'', exam_date = Some 738947, blood_sugar = Some 14\<rparr>,
            \<lparr>admission_key = ''E1'', exam_date = Some 738948, blood_sugar = Some 5\<rparr>,
            \<lparr>admission_key = ''E1'', exam_date = Some 738948, blood_sugar = Some 14\<rparr>,
            \<lparr>admission_key = ''E1'', exam_date = Some 738949, blood_sugar = Some 6\<rparr>])) = [(1, 5, 14)]
   \<and> map (\<lambda>l. (outcome l, min_glucose l, max_glucose l))
     (filter (\<lambda>l. admission_key l = ''E1'' \<and> date l = 738949)
        (process_glucose_data round2
           [\<lparr>admission_key = ''E1'', exam_date = Some 738946, blood_sugar = Some 5\<rparr>,
            \<lparr>admission_key = ''E1'', exam_date = Some 738946, blood_sugar = Some 10\<rparr>,
            \<lparr>admission_key = ''E1'', exam_date = Some 738947, blood_sugar = Some 3\<rparr>,
            \<lparr>admission_key = ''E1'', exam_date = Some 738947, blood_sugar = Some 14\<rparr>,
            \<lparr>admission_key = ''E1'', exam_date = Some 738948, blood_sugar = Some 5\<rparr>,
            \<lparr>admission_key = ''E1'', exam_date = Some 738948, blood_sugar = Some 14\<rparr>,
            \<lparr>admission_key = ''E1'', exam_date = Some 738949, blood_sugar = Some 6\<rparr>])) = []"
proof -
  let ?df = "[\<lparr>admission_key = ''E1'', exam_date = Some 738946, blood_sugar = Some 5\<rparr>,
            \<lparr>admission_key = ''E1'', exam_date = Some 738946, blood_sugar = Some 10\<rparr>,
            \<lparr>admission_key = ''E1'', exam_date = Some 738947, blood_sugar = Some 3\<rparr>,
            \<lparr>admission_key = ''E1'', exam_date = Some 738947, blood_sugar = Some 14\<rparr>,
            \<lparr>admission_key = ''E1'', exam_date = Some 738948, blood_sugar = Some 5\<rparr>,
            \<lparr>admission_key = ''E1'', exam_date = Some 738948, blood_sugar = Some 14\<rparr>,
            \<lparr>admission_key = ''E1'', exam_date = Some 738949, blood_sugar = Some 6\<rparr>]"
  let ?r1 = "daily_of round2 (''E1'', 738946) [5, 10]"
  let ?r2 = "daily_of round2 (''E1'', 738947) [3, 14]"
  let ?r3 = "daily_of round2 (''E1'', 738948) [5, 14]"
  let ?r4 = "daily_of round2 (''E1'', 738949) [6]"
  have valid: "valid_measurements ?df
      = [(''E1'', 738946, 5), (''E1'', 738946, 10), (''E1'', 738947, 3), (''E1'', 738947, 14),
         (''E1'', 738948, 5), (''E1'', 738948, 14), (''E1'', 738949, 6)]"
    by (simp add: valid_measurements_def)
  have stats: "daily_glucose_stats round2 ?df = [?r1, ?r2, ?r3, ?r4]"
    unfolding daily_glucose_stats_def valid Let_def by (simp add: group_values_def)
  have mem: "?r1 \<in> set (daily_glucose_stats round2 ?df)" "?r2 \<in> set (daily_glucose_stats round2 ?df)"
    "?r3 \<in> set (daily_glucose_stats round2 ?df)" "?r4 \<in> set (daily_glucose_stats round2 ?df)"
    unfolding stats by simp_all
  have kd: "admission_key ?r1 = ''E1''" "date ?r1 = 738946" "admission_key ?r2 = ''E1''"
    "date ?r2 = 738947" "admission_key ?r3 = ''E1''" "date ?r3 = 738948"
    "admission_key ?r4 = ''E1''" "date ?r4 = 738949"
    by (simp_all add: daily_of_def)
  have mm: "min_glucose ?r1 = 5" "max_glucose ?r1 = 10" "min_glucose ?r2 = 3"
    "max_glucose ?r2 = 14" "min_glucose ?r3 = 5" "max_glucose ?r3 = 14"
    "min_glucose ?r4 = 6" "max_glucose ?r4 = 6"
    by (simp_all add: daily_of_def agg_min_def agg_max_def)
  have step: "\<exists>l. filter (\<lambda>l. admission_key l = admission_key r \<and> date l = date r)
                   (process_glucose_data round2 ?df) = [l]
               \<and> outcome l = (if min_glucose n < 3.9 then 0
                              else if 13.9 < max_glucose n then 2 else 1)
               \<and> min_glucose l = min_glucose r \<and> max_glucose l = max_glucose r"
    if r: "r \<in> set (daily_glucose_stats round2 ?df)"
      and n: "n \<in> set (daily_glucose_stats round2 ?df)"
      and nx: "admission_key n = admission_key r \<and> date n = date r + 1" for r n
  proof -
    from next_day_outcome_label [OF r]
    have "\<forall>n \<in> set (daily_glucose_stats round2 ?df).
            admission_key n = admission_key r \<and> date n = date r + 1 \<longrightarrow>
            (\<exists>l. filter (\<lambda>l. admission_key l = admission_key r \<and> date l = date r)
                   (process_glucose_data round2 ?df) = [l]
               \<and> outcome l = (if min_glucose n < 3.9 then 0
                              else if 13.9 < max_glucose n then 2 else 1)
               \<and> (min_glucose n < 3.9 \<and> 13.9 < max_glucose n \<longrightarrow> outcome l = 0)
               \<and> admission_key l = admission_key r \<and> date l = date r
               \<and> min_glucose l = min_glucose r \<and> max_glucose l = max_glucose r
               \<and> mean_glucose l = mean_glucose r \<and> std_glucose l = std_glucose r
               \<and> count_glucose l = count_glucose r \<and> cv_glucose l = cv_glucose r)"
      by (rule conjunct1)
    from this [rule_format, OF n nx] show ?thesis
    proof (elim exE conjE)
      fix l
      assume "filter (\<lambda>l. admission_key l = admission_key r \<and> date l = date r)
                   (process_glucose_data round2 ?df) = [l]"
        "outcome l = (if min_glucose n < 3.9 then 0
                              else if 13.9 < max_glucose n then 2 else 1)"
        "min_glucose l = min_glucose r" "max_glucose l = max_glucose r"
      then show ?thesis by (intro exI [of _ l] conjI)
    qed
  qed
  have d1: "map (\<lambda>l. (outcome l, min_glucose l, max_glucose l))
     (filter (\<lambda>l. admission_key l = ''E1'' \<and> date l = 738946)
        (process_glucose_data round2
           [\<lparr>admission_key = ''E1'', exam_date = Some 738946, blood_sugar = Some 5\<rparr>,
            \<lparr>admission_key = ''E1'', exam_date = Some 738946, blood_sugar = Some 10\<rparr>,
            \<lparr>admission_key = ''E1'', exam_date = Some 738947, blood_sugar = Some 3\<rparr>,
            \<lparr>admission_key = ''E1'', exam_date = Some 738947, blood_sugar = Some 14\<rparr>,
            \<lparr>admission_key = ''E1'', exam_date = Some 738948, blood_sugar = Some 5\<rparr>,
            \<lparr>admission_key = ''E1'', exam_date = Some 738948, blood_sugar = Some 14\<rparr>,
            \<lparr>admission_key = ''E1'', exam_date = Some 738949, blood_sugar = Some 6\<rparr>])) = [(0, 5, 10)]"
  proof -
    have nx: "admission_key ?r2 = admission_key ?r1 \<and> date ?r2 = date ?r1 + 1"
      by (simp add: kd)
    from step [OF mem(1) mem(2) nx] obtain l where
      f: "filter (\<lambda>l. admission_key l = admission_key ?r1 \<and> date l = date ?r1)
            (process_glucose_data round2 ?df) = [l]"
      and o: "outcome l = (if min_glucose ?r2 < 3.9 then 0
                           else if 13.9 < max_glucose ?r2 then 2 else 1)"
      and mn: "min_glucose l = min_glucose ?r1" and mx: "max_glucose l = max_glucose ?r1"
      by (elim exE conjE)
    from o have o': "outcome l = 0" unfolding mm by simp
    from f have "filter (\<lambda>l. admission_key l = ''E1'' \<and> date l = 738946)
            (process_glucose_data round2 ?df) = [l]"
      unfolding kd .
    then show ?thesis using o' mn mx unfolding mm by simp
  qed
  have d2: "map (\<lambda>l. (outcome l, min_glucose l, max_glucose l))
     (filter (\<lambda>l. admission_key l = ''E1'' \<and> date l = 738947)
        (process_glucose_data round2
           [\<lparr>admission_key = ''E1'', exam_date = Some 738946, blood_sugar = Some 5\<rparr>,
            \<lparr>admission_key = ''E1'', exam_date = Some 738946, blood_sugar = Some 10\<rparr>,
            \<lparr>admission_key = ''E1'', exam_date = Some 738947, blood_sugar = Some 3\<rparr>,
            \<lparr>admission_key = ''E1'', exam_date = Some 738947, blood_sugar = Some 14\<rparr>,
            \<lparr>admission_key = ''E1'', exam_date = Some 738948, blood_sugar = Some 5\<rparr>,
            \<lparr>admission_key = ''E1'', exam_date = Some 738948, blood_sugar = Some 14\<rparr>,
            \<lparr>admission_key = ''E1'', exam_date = Some 738949, blood_sugar = Some 6\<rparr>])) = [(2, 3, 14)]"
  proof -
    have nx: "admission_key ?r3 = admission_key ?r2 \<and> date ?r3 = date ?r2 + 1"
      by (simp add: kd)
    from step [OF mem(2) mem(3) nx] obtain l where
      f: "filter (\<lambda>l. admission_key l = admission_key ?r2 \<and> date l = date ?r2)
            (process_glucose_data round2 ?df) = [l]"
      and o: "outcome l = (if min_glucose ?r3 < 3.9 then 0
                           else if 13.9 < max_glucose ?r3 then 2 else 1)"
      and mn: "min_glucose l = min_glucose ?r2" and mx: "max_glucose l = max_glucose ?r2"
      by (elim exE conjE)
    from o have o': "outcome l = 2" unfolding mm by simp
    from f have "filter (\<lambda>l. admission_key l = ''E1'' \<and> date l = 738947)
            (process_glucose_data round2 ?df) = [l]"
      unfolding kd .
    then show ?thesis using o' mn mx unfolding mm by simp
  qed
  have d3: "map (\<lambda>l. (outcome l, min_glucose l, max_glucose l))
     (filter (\<lambda>l. admission_key l = ''E1'' \<and> date l = 738948)
        (process_glucose_data round2
           [\<lparr>admission_key = ''E1'', exam_date = Some 738946, blood_sugar = Some 5\<rparr>,
            \<lparr>admission_key = ''E1'', exam_date = Some 738946, blood_sugar = Some 10\<rparr>,
            \<lparr>admission_key = ''E1'', exam_date = Some 738947, blood_sugar = Some 3\<rparr>,
            \<lparr>admission_key = ''E1'', exam_date = Some 738947, blood_sugar = Some 14\<rparr>,
            \<lparr>admission_key = ''E1'', exam_date = Some 738948, blood_sugar = Some 5\<rparr>,
            \<lparr>admission_key = ''E1'', exam_date = Some 738948, blood_sugar = Some 14\<rparr>,
            \<lparr>admission_key = ''E1'', exam_date = Some 738949, blood_sugar = Some 6\<rparr>])) = [(1, 5, 14)]"
  proof -
    have nx: "admission_key ?r4 = admission_key ?r3 \<and> date ?r4 = date ?r3 + 1"
      by (simp add: kd)
    from step [OF mem(3) mem(4) nx] obtain l where
      f: "filter (\<lambda>l. admission_key l = admission_key ?r3 \<and> date l = date ?r3)
            (process_glucose_data round2 ?df) = [l]"
      and o: "outcome l = (if min_glucose ?r4 < 3.9 then 0
                           else if 13.9 < max_glucose ?r4 then 2 else 1)"
      and mn: "min_glucose l = min_glucose ?r3" and mx: "max_glucose l = max_glucose ?r3"
      by (elim exE conjE)
    from o have o': "outcome l = 1" unfolding mm by simp
    from f have "filter (\<lambda>l. admission_key l = ''E1'' \<and> date l = 738948)
            (process_glucose_data round2 ?df) = [l]"
      unfolding kd .
    then show ?thesis using o' mn mx unfolding mm by simp
  qed
  have "\<not> (\<exists>n \<in> set (daily_glucose_stats round2 ?df).
             admission_key n = admission_key ?r4 \<and> date n = date ?r4 + 1)"
    unfolding stats by (simp add: daily_of_def)
  with next_day_outcome_label [OF mem(4)]
  have "filter (\<lambda>l. admission_key l = admission_key ?r4 \<and> date l = date ?r4)
          (process_glucose_data round2 ?df) = []"
    by (elim conjE impE)
  then have "filter (\<lambda>l. admission_key l = ''E1'' \<and> date l = 738949)
          (process_glucose_data round2 ?df) = []"
    unfolding kd .
  then have d4: "map (\<lambda>l. (outcome l, min_glucose l, max_glucose l))
     (filter (\<lambda>l. admission_key l = ''E1'' \<and> date l = 738949)
        (process_glucose_data round2
           [\<lparr>admission_key = ''E1'', exam_date = Some 738946, blood_sugar = Some 5\<rparr>,
            \<lparr>admission_key = ''E1'', exam_date = Some 738946, blood_sugar = Some 10\<rparr>,
            \<lparr>admission_key = ''E1'', exam_date = Some 738947, blood_sugar = Some 3\<rparr>,
            \<lparr>admission_key = ''E1'', exam_date = Some 738947, blood_sugar = Some 14\<rparr>,
            \<lparr>admission_key = ''E1'', exam_date = Some 738948, blood_sugar = Some 5\<rparr>,
            \<lparr>admission_key = ''E1'', exam_date = Some 738948, blood_sugar = Some 14\<rparr>,
            \<lparr>admission_key = ''E1'', exam_date = Some 738949, blood_sugar = Some 6\<rparr>])) = []"
    by simp
  from d1 d2 d3 d4 show ?thesis by (intro conjI)
qed

section \<open>Properties of the daily statistics\<close>

lemma agg_min_Min: "vs \<noteq> [] \<Longrightarrow> agg_min vs = Min (set vs)"
proof (cases vs)
  case Nil
  assume "vs \<noteq> []"
  with Nil show ?thesis by simp
next
  case (Cons a list)
  with Min.set_eq_fold [of a list] show ?thesis by (simp add: agg_min_def)
qed

lemma agg_max_Max: "vs \<noteq> [] \<Longrightarrow> agg_max vs = Max (set vs)"
proof (cases vs)
  case Nil
  assume "vs \<noteq> []"
  with Nil show ?thesis by simp
next
  case (Cons a list)
  with Max.set_eq_fold [of a list] show ?thesis by (simp add: agg_max_def)
qed

lemma group_values_nonempty:
  assumes "(k, d, v) \<in> set df"
  shows "group_values df (k, d) \<noteq> []"
proof -
  from assms have "(k, d, v) \<in> set (filter (\<lambda>m. (fst m, fst (snd m)) = (k, d)) df)"
    by simp
  then have "filter (\<lambda>m. (fst m, fst (snd m)) = (k, d)) df \<noteq> []"
    by (metis empty_iff empty_set)
  then show ?thesis by (simp add: group_values_def)
qed

lemma daily_row_of_group:
  assumes "(k, d, v) \<in> set (valid_measurements df_glucose)"
  shows "daily_of round_2 (k, d) (group_values (valid_measurements df_glucose) (k, d))
           \<in> set (daily_glucose_stats round_2 df_glucose)"
proof -
  from assms have "(k, d) \<in> (\<lambda>m. (fst m, fst (snd m))) ` set (valid_measurements df_glucose)"
    by (metis (mono_tags, lifting) fst_conv imageI snd_conv)
  then show ?thesis
    by (simp add: daily_glucose_stats_def Let_def image_iff) blast
qed

lemma round_half_even_near: "\<bar>of_int (round_half_even x) - x\<bar> \<le> 1 / 2"
proof -
  have "of_int \<lfloor>x\<rfloor> \<le> x" "x < of_int \<lfloor>x\<rfloor> + 1" by linarith+
  then show ?thesis
    by (auto simp: round_half_even_def Let_def)
qed

lemma round2_rounds: "rounds_to_2_decimals round2"
  unfolding rounds_to_2_decimals_def
proof (intro allI conjI)
  fix x :: real
  show "\<exists>k :: int. round2 x = of_int k / 100"
    by (auto simp: round2_def)
  from round_half_even_near [of "x * 100"]
  show "\<bar>round2 x - x\<bar> \<le> 1 / 200"
    by (simp add: round2_def field_simps)
qed

lemma sqrt2_bounds: "1414 / 1000 < sqrt 2" "sqrt 2 < 141425 / 100000"
proof -
  have "(1414 / 1000 :: real)\<^sup>2 < 2" by (simp add: power2_eq_square)
  then show "1414 / 1000 < sqrt 2" by (rule real_less_rsqrt)
  have "(2 :: real) < (141425 / 100000)\<^sup>2" by (simp add: power2_eq_square)
  then show "sqrt 2 < 141425 / 100000" by (intro real_less_lsqrt) simp_all
qed

lemma round2_sqrt2: "round2 (sqrt 2 / 5 * 100) = 2828 / 100"
proof -
  let ?y = "sqrt 2 / 5 * 100 * 100"
  have b: "2828 \<le> ?y" "?y < 2828 + 1 / 2"
    using sqrt2_bounds by simp_all
  then have f: "\<lfloor>?y\<rfloor> = 2828" by linarith
  have "round_half_even ?y = 2828"
    using b unfolding round_half_even_def Let_def f by simp
  then show ?thesis unfolding round2_def by simp
qed

text \<open>
  C4 as the code has it. Every (EpisodeKey, date) group of parseable measurements has a
  row in the daily table with the minimum, the maximum, the mean and the count of the
  group's values, the sample standard deviation (the squared deviations divided by
  \<open>n - 1\<close>; NaN for a group of one value) and the coefficient of variation: the
  quotient \<open>std / mean * 100\<close> rounded to two decimals, which is NaN where \<open>std\<close> is,
  and with a mean of zero NaN for \<open>std = 0\<close> and infinite otherwise. Where it is a
  number it is a multiple of 0.01 at most 0.005 away from \<open>std / mean * 100\<close>.
\<close>

theorem daily_statistics_of_group:
  assumes "(k, d, v) \<in> set (valid_measurements df_glucose)"
    and "rounds_to_2_decimals round_2"
  defines "vs \<equiv> group_values (valid_measurements df_glucose) (k, d)"
  shows "\<exists>r \<in> set (daily_glucose_stats round_2 df_glucose).
           admission_key r = k \<and> date r = d
           \<and> vs \<noteq> []
           \<and> min_glucose r = Min (set vs)
           \<and> max_glucose r = Max (set vs)
           \<and> mean_glucose r = sum_list vs / real (length vs)
           \<and> count_glucose r = length vs
           \<and> std_glucose r =
               (if length vs < 2 then None
                else Some (sqrt (sum_list (map (\<lambda>x. (x - mean_glucose r)\<^sup>2) vs)
                                  / real (length vs - 1))))
           \<and> cv_glucose r =
               (case std_glucose r of
                  None \<Rightarrow> NotANumber
                | Some s \<Rightarrow>
                    if mean_glucose r = 0 then (if s = 0 then NotANumber else PosInf)
                    else Finite (round_2 (s / mean_glucose r * 100)))
           \<and> (\<forall>s. std_glucose r = Some s \<and> mean_glucose r \<noteq> 0 \<longrightarrow>
                 (\<exists>c. cv_glucose r = Finite c \<and> (\<exists>j :: int. c = of_int j / 100)
                    \<and> \<bar>c - s / mean_glucose r * 100\<bar> \<le> 1 / 200))"
proof -
  have ne: "vs \<noteq> []"
    unfolding vs_def using assms(1) by (rule group_values_nonempty)
  let ?r = "daily_of round_2 (k, d) vs"
  have mem: "?r \<in> set (daily_glucose_stats round_2 df_glucose)"
    unfolding vs_def using assms(1) by (rule daily_row_of_group)
  have cv: "cv_glucose ?r =
               (case std_glucose ?r of
                  None \<Rightarrow> NotANumber
                | Some s \<Rightarrow>
                    if mean_glucose ?r = 0 then (if s = 0 then NotANumber else PosInf)
                    else Finite (round_2 (s / mean_glucose ?r * 100)))"
    by (simp add: daily_of_def cv_def split: option.splits)
  have near: "\<exists>c. cv_glucose ?r = Finite c \<and> (\<exists>j :: int. c = of_int j / 100)
                    \<and> \<bar>c - s / mean_glucose ?r * 100\<bar> \<le> 1 / 200"
    if "std_glucose ?r = Some s \<and> mean_glucose ?r \<noteq> 0" for s
  proof -
    let ?q = "s / mean_glucose ?r * 100"
    from that cv have "cv_glucose ?r = Finite (round_2 ?q)" by simp
    moreover from assms(2) have "\<exists>j :: int. round_2 ?q = of_int j / 100"
      and "\<bar>round_2 ?q - ?q\<bar> \<le> 1 / 200"
      unfolding rounds_to_2_decimals_def by blast+
    ultimately show ?thesis by (intro exI [of _ "round_2 ?q"] conjI)
  qed
  have near': "\<forall>s. std_glucose ?r = Some s \<and> mean_glucose ?r \<noteq> 0 \<longrightarrow>
                 (\<exists>c. cv_glucose ?r = Finite c \<and> (\<exists>j :: int. c = of_int j / 100)
                    \<and> \<bar>c - s / mean_glucose ?r * 100\<bar> \<le> 1 / 200)"
    by (intro allI impI) (rule near)
  show ?thesis
  proof (rule bexI [OF _ mem], intro conjI)
    show "admission_key ?r = k" "date ?r = d" "count_glucose ?r = length vs"
      "mean_glucose ?r = sum_list vs / real (length vs)"
      by (simp_all add: daily_of_def agg_mean_def)
    show "vs \<noteq> []" by (rule ne)
    show "min_glucose ?r = Min (set vs)" using ne by (simp add: daily_of_def agg_min_Min)
    show "max_glucose ?r = Max (set vs)" using ne by (simp add: daily_of_def agg_max_Max)
    show "std_glucose ?r =
               (if length vs < 2 then None
                else Some (sqrt (sum_list (map (\<lambda>x. (x - mean_glucose ?r)\<^sup>2) vs)
                                  / real (length vs - 1))))"
      by (simp add: daily_of_def agg_std_def)
    show "cv_glucose ?r =
               (case std_glucose ?r of
                  None \<Rightarrow> NotANumber
                | Some s \<Rightarrow>
                    if mean_glucose ?r = 0 then (if s = 0 then NotANumber else PosInf)
                    else Finite (round_2 (s / mean_glucose ?r * 100)))"
      by (rule cv)
    show "\<forall>s. std_glucose ?r = Some s \<and> mean_glucose ?r \<noteq> 0 \<longrightarrow>
                 (\<exists>c. cv_glucose ?r = Finite c \<and> (\<exists>j :: int. c = of_int j / 100)
                    \<and> \<bar>c - s / mean_glucose ?r * 100\<bar> \<le> 1 / 200)"
      by (rule near')
  qed
qed

text \<open>
  The statistics of one day with the values 4 and 6, under the rounding \<open>round2\<close>: the
  standard deviation is \<open>sqrt 2\<close> and the coefficient of variation 28.28.
\<close>

theorem daily_statistics_of_group_witness:
  "(''E1'', 738946, 4) \<in> set (valid_measurements [\<lparr>admission_key = ''E1'', exam_date = Some 738946, blood_sugar = Some 4\<rparr>,
        \<lparr>admission_key = ''E1'', exam_date = Some 738946, blood_sugar = Some 6\<rparr>])
   \<and> rounds_to_2_decimals round2
   \<and> (\<exists>r \<in> set (daily_glucose_stats round2 [\<lparr>admission_key = ''E1'', exam_date = Some 738946, blood_sugar = Some 4\<rparr>,
        \<lparr>admission_key = ''E1'', exam_date = Some 738946, blood_sugar = Some 6\<rparr>]).
     admission_key r = ''E1'' \<and> date r = 738946 \<and> min_glucose r = 4 \<and> max_glucose r = 6
     \<and> mean_glucose r = 5 \<and> count_glucose r = 2 \<and> std_glucose r = Some (sqrt 2)
     \<and> cv_glucose r = Finite (2828 / 100))"
proof -
  let ?df = "[\<lparr>admission_key = ''E1'', exam_date = Some 738946, blood_sugar = Some 4\<rparr>,
        \<lparr>admission_key = ''E1'', exam_date = Some 738946, blood_sugar = Some 6\<rparr>]"
  have valid: "valid_measurements ?df = [(''E1'', 738946, 4), (''E1'', 738946, 6)]"
    by (simp add: valid_measurements_def)
  have vs: "group_values (valid_measurements ?df) (''E1'', 738946) = [4, 6]"
    unfolding valid by (simp add: group_values_def)
  have m: "(''E1'', 738946, 4) \<in> set (valid_measurements ?df)"
    unfolding valid by simp
  from daily_statistics_of_group [OF m round2_rounds]
  have "\<exists>r \<in> set (daily_glucose_stats round2 ?df).
     admission_key r = ''E1'' \<and> date r = 738946 \<and> min_glucose r = 4 \<and> max_glucose r = 6
     \<and> mean_glucose r = 5 \<and> count_glucose r = 2 \<and> std_glucose r = Some (sqrt 2)
     \<and> cv_glucose r = Finite (2828 / 100)"
    unfolding vs
  proof (elim bexE conjE)
    fix r
    assume r: "r \<in> set (daily_glucose_stats round2 ?df)"
      and k: "admission_key r = ''E1''" and d: "date r = 738946"
      and mn: "min_glucose r = Min (set [4, 6])" and mx: "max_glucose r = Max (set [4, 6])"
      and mean: "mean_glucose r = sum_list [4, 6] / real (length [4 :: real, 6])"
      and n: "count_glucose r = length [4 :: real, 6]"
      and sd: "std_glucose r =
               (if length [4 :: real, 6] < 2 then None
                else Some (sqrt (sum_list (map (\<lambda>x. (x - mean_glucose r)\<^sup>2) [4, 6])
                                  / real (length [4 :: real, 6] - 1))))"
      and c: "cv_glucose r =
               (case std_glucose r of
                  None \<Rightarrow> NotANumber
                | Some s \<Rightarrow>
                    if mean_glucose r = 0 then (if s = 0 then NotANumber else PosInf)
                    else Finite (round2 (s / mean_glucose r * 100)))"
    from mean have mean5: "mean_glucose r = 5" by simp
    have mn4: "min_glucose r = 4" using mn by simp
    have mx6: "max_glucose r = 6" using mx by simp
    have n2: "count_glucose r = 2" using n by simp
    have sd2: "std_glucose r = Some (sqrt 2)" using sd unfolding mean5 by simp
    have "cv_glucose r = Finite (round2 (sqrt 2 / 5 * 100))"
      using c unfolding sd2 mean5 by simp
    then have cv: "cv_glucose r = Finite (2828 / 100)" unfolding round2_sqrt2 .
    show ?thesis using r k d mean5 mn4 mx6 n2 sd2 cv by (intro bexI [of _ r] conjI)
  qed
  with m round2_rounds show ?thesis by (intro conjI)
qed

text \<open>
  C4 as it is stated fails on the standard deviation and on the coefficient of
  variation. For the two values 4 and 6 of one day the table holds the sample standard
  deviation \<open>sqrt 2\<close>, and not the population standard deviation 1; and it holds the
  coefficient 28.28, which is neither the population standard deviation over the mean
  times 100 (that is 20) nor the table's own \<open>std / mean * 100\<close>, which it rounds.
\<close>

theorem daily_std_is_not_population_std:
  "map std_glucose (daily_glucose_stats round2 [\<lparr>admission_key = ''E1'', exam_date = Some 738946, blood_sugar = Some 4\<rparr>,
        \<lparr>admission_key = ''E1'', exam_date = Some 738946, blood_sugar = Some 6\<rparr>]) = [Some (sqrt 2)]
   \<and> map mean_glucose (daily_glucose_stats round2 [\<lparr>admission_key = ''E1'', exam_date = Some 738946, blood_sugar = Some 4\<rparr>,
        \<lparr>admission_key = ''E1'', exam_date = Some 738946, blood_sugar = Some 6\<rparr>]) = [5]
   \<and> map cv_glucose (daily_glucose_stats round2 [\<lparr>admission_key = ''E1'', exam_date = Some 738946, blood_sugar = Some 4\<rparr>,
        \<lparr>admission_key = ''E1'', exam_date = Some 738946, blood_sugar = Some 6\<rparr>]) = [Finite (2828 / 100)]
   \<and> population_std [4, 6] = 1
   \<and> sqrt 2 \<noteq> (1 :: real)
   \<and> population_std [4, 6] / 5 * 100 \<noteq> (2828 / 100 :: real)
   \<and> sqrt 2 / 5 * 100 \<noteq> (2828 / 100 :: real)"
proof -
  let ?df = "[\<lparr>admission_key = ''E1'', exam_date = Some 738946, blood_sugar = Some 4\<rparr>,
        \<lparr>admission_key = ''E1'', exam_date = Some 738946, blood_sugar = Some 6\<rparr>]"
  have t: "daily_glucose_stats round2 ?df = [daily_of round2 (''E1'', 738946) [4, 6]]"
    by (simp add: daily_glucose_stats_def valid_measurements_def group_values_def)
  have sd: "map std_glucose (daily_glucose_stats round2 ?df) = [Some (sqrt 2)]"
    unfolding t by (simp add: daily_of_def agg_std_def agg_mean_def)
  have mean: "map mean_glucose (daily_glucose_stats round2 ?df) = [5]"
    unfolding t by (simp add: daily_of_def agg_mean_def)
  have "cv round2 (agg_std [4, 6]) (agg_mean [4, 6]) = Finite (round2 (sqrt 2 / 5 * 100))"
    by (simp add: cv_def agg_std_def agg_mean_def)
  then have c: "map cv_glucose (daily_glucose_stats round2 ?df) = [Finite (2828 / 100)]"
    unfolding t round2_sqrt2 by (simp add: daily_of_def)
  have p: "population_std [4, 6] = 1"
    by (simp add: population_std_def agg_mean_def)
  have n1: "sqrt 2 \<noteq> (1 :: real)" by simp
  have n2: "population_std [4, 6] / 5 * 100 \<noteq> (2828 / 100 :: real)"
    unfolding p by simp
  have n3: "sqrt 2 / 5 * 100 \<noteq> (2828 / 100 :: real)"
    using sqrt2_bounds(1) by simp
  from sd mean c p n1 n2 n3 show ?thesis by (intro conjI)
qed

section \<open>Properties of boundary trimming\<close>

lemma kept_of_group_total:
  "kept_of_group s (s + length gs) gs = (if s = 0 then butlast (tl gs) else butlast gs)"
proof (induction gs arbitrary: s)
  case Nil
  show ?case by simp
next
  case (Cons g gs)
  from Cons.IH [of "Suc s"] show ?case by (cases gs) auto
qed

lemma filter_kept_rows:
  "filter (\<lambda>r. key r = k)
     (select_mask
        (map2 (\<lambda>s t. 1 < s \<and> s < t)
           (map Suc (cumcount_from seen (map key rows))) (map (\<lambda>r. group_size (key r)) rows))
        rows)
   = kept_of_group (seen k) (group_size k) (filter (\<lambda>r. key r = k) rows)"
proof (induction rows arbitrary: seen)
  case Nil
  show ?case by (simp add: select_mask_def)
next
  case (Cons r rows)
  let ?seen' = "seen(key r := Suc (seen (key r)))"
  have IH: "filter (\<lambda>r. key r = k)
     (select_mask
        (map2 (\<lambda>s t. 1 < s \<and> s < t)
           (map Suc (cumcount_from ?seen' (map key rows))) (map (\<lambda>r. group_size (key r)) rows))
        rows)
   = kept_of_group (?seen' k) (group_size k) (filter (\<lambda>r. key r = k) rows)"
    by (rule Cons.IH)
  show ?case
  proof (cases "key r = k")
    case True
    then have "?seen' k = Suc (seen k)" by simp
    with IH True show ?thesis
      by (cases "seen k") (simp_all add: select_mask_def del: fun_upd_apply)
  next
    case False
    then have "?seen' k = seen k" by simp
    with IH False show ?thesis
      by (simp add: select_mask_def del: fun_upd_apply)
  qed
qed

lemma transform_count_keys:
  "transform_count (map key rows)
     = map (\<lambda>r. length (filter (\<lambda>r'. key r' = key r) rows)) rows"
  by (simp add: transform_count_def filter_map comp_def)

text \<open>
  Boundary trimming on the rows of the table: of every key it keeps the rows of the
  sorted table other than the first and the last, \<open>n - 2\<close> of \<open>n\<close> rows.
\<close>

lemma trim_boundary_days_rows:
  "filter (\<lambda>r. admission_key r = k) (trim_boundary_days daily_data)
     = butlast (tl (filter (\<lambda>r. admission_key r = k)
         (sort_key (\<lambda>r. (admission_key r, date r)) daily_data)))
   \<and> length (filter (\<lambda>r. admission_key r = k) (trim_boundary_days daily_data))
     = length (filter (\<lambda>r. admission_key r = k) daily_data) - 2"
proof -
  let ?sorted = "sort_key (\<lambda>r. (admission_key r, date r)) daily_data"
  let ?group = "filter (\<lambda>r. admission_key r = k) ?sorted"
  have "filter (\<lambda>r. admission_key r = k) (trim_boundary_days daily_data)
          = kept_of_group 0 (length ?group) ?group"
    unfolding trim_boundary_days_def Let_def cumcount_def transform_count_keys
    using filter_kept_rows [where seen = "\<lambda>_. 0" and key = admission_key and rows = ?sorted
          and group_size = "\<lambda>k. length (filter (\<lambda>r'. admission_key r' = k) ?sorted)" and k = k]
    by simp
  also have "\<dots> = butlast (tl ?group)"
    using kept_of_group_total [of 0 ?group] by simp
  finally have kept: "filter (\<lambda>r. admission_key r = k) (trim_boundary_days daily_data)
          = butlast (tl ?group)" .
  have "length ?group = length (filter (\<lambda>r. admission_key r = k) daily_data)"
    by (simp add: filter_sort)
  with kept show ?thesis by simp
qed

text \<open>
  With a static table that holds every key at most once, the rows of the time-series
  table before trimming are the labelled days, and a key with \<open>n\<close> labelled days keeps
  \<open>n - 2\<close> rows.
\<close>

lemma filter_distinct_key_le_1:
  "distinct (map fst static) \<Longrightarrow> length (filter (\<lambda>s. fst s = k) static) \<le> 1"
proof (induction static)
  case Nil
  show ?case by simp
next
  case (Cons a static)
  show ?case
  proof (cases "fst a = k")
    case True
    with Cons.prems have "k \<notin> fst ` set static" by auto
    then have "filter (\<lambda>s. fst s = k) static = []"
      by (auto simp: filter_empty_conv)
    with True show ?thesis by simp
  next
    case False
    with Cons show ?thesis by simp
  qed
qed

lemma keys_merge_static:
  assumes "distinct (map fst static)"
  shows "map admission_key (merge_static daily_data static) = map admission_key daily_data"
proof -
  have one: "map admission_key
      (case filter (\<lambda>s. fst s = admission_key r) static of
          [] \<Rightarrow> [labelled_day.extend r (static_row.fields None)]
        | ms \<Rightarrow> map (\<lambda>s. labelled_day.extend r (static_row.fields (Some (snd s)))) ms)
      = [admission_key r]" for r :: labelled_day
  proof (cases "filter (\<lambda>s. fst s = admission_key r) static")
    case Nil
    then show ?thesis by (simp add: labelled_day.extend_def)
  next
    case (Cons m ms)
    with filter_distinct_key_le_1 [OF assms, of "admission_key r"] have "ms = []" by simp
    with Cons show ?thesis by (simp add: labelled_day.extend_def)
  qed
  show ?thesis
    unfolding merge_static_def by (induction daily_data) (simp_all add: one)
qed

lemma length_cumcount_from: "length (cumcount_from seen ks) = length ks"
  by (induction ks arbitrary: seen) simp_all

lemma keys_map2_extend:
  "length ns = length rows \<Longrightarrow>
   map admission_key (map2 (\<lambda>r n. static_row.extend r (hosp_row.fields (f n))) rows ns)
     = map admission_key rows"
  by (induction rows ns rule: list_induct2') (simp_all add: static_row.extend_def)

lemma keys_add_hosp_day:
  "map admission_key (add_hosp_day daily_data)
     = map admission_key (sort_key (\<lambda>r. (admission_key r, date r)) daily_data)"
  unfolding add_hosp_day_def Let_def cumcount_def
  by (rule keys_map2_extend) (simp add: length_cumcount_from)

lemma keys_add_prehypo: "map admission_key (add_prehypo daily_data) = map admission_key daily_data"
  by (simp add: add_prehypo_def hosp_row.extend_def comp_def)

lemma count_key_map:
  "length (filter (\<lambda>r. key r = k) rows) = length (filter (\<lambda>x. x = k) (map key rows))"
  by (simp add: filter_map comp_def)

lemma build_timeseries_dataset_unique_static:
  assumes "distinct (map fst static)"
  shows "length (filter (\<lambda>r. admission_key r = k) (build_timeseries_dataset round_2 df_glucose static))
     = length (filter (\<lambda>l. admission_key l = k) (process_glucose_data round_2 df_glucose)) - 2"
proof (cases "process_glucose_data round_2 df_glucose = []")
  case True
  then show ?thesis by (simp add: build_timeseries_dataset_def)
next
  case False
  let ?daily = "process_glucose_data round_2 df_glucose"
  let ?m = "merge_static ?daily static"
  have "length (filter (\<lambda>r. admission_key r = k) (add_prehypo (add_hosp_day ?m)))
      = length (filter (\<lambda>x. x = k) (map admission_key (sort_key (\<lambda>r. (admission_key r, date r)) ?m)))"
    unfolding count_key_map [of admission_key] keys_add_prehypo keys_add_hosp_day ..
  also have "\<dots> = length (filter (\<lambda>r. admission_key r = k) (sort_key (\<lambda>r. (admission_key r, date r)) ?m))"
    by (simp add: count_key_map [of admission_key])
  also have "\<dots> = length (filter (\<lambda>r. admission_key r = k) ?m)"
    by (simp add: filter_sort)
  also have "\<dots> = length (filter (\<lambda>l. admission_key l = k) ?daily)"
    unfolding count_key_map [of admission_key] keys_merge_static [OF assms] ..
  finally have n: "length (filter (\<lambda>r. admission_key r = k) (add_prehypo (add_hosp_day ?m)))
      = length (filter (\<lambda>l. admission_key l = k) ?daily)" .
  have b: "build_timeseries_dataset round_2 df_glucose static
      = trim_boundary_days (add_prehypo (add_hosp_day ?m))"
    using False by (simp add: build_timeseries_dataset_def)
  have "length (filter (\<lambda>r. admission_key r = k) (trim_boundary_days (add_prehypo (add_hosp_day ?m))))
      = length (filter (\<lambda>r. admission_key r = k) (add_prehypo (add_hosp_day ?m))) - 2"
    by (rule trim_boundary_days_rows [THEN conjunct2])
  then show ?thesis unfolding b n .
qed

text \<open>
  C3 at an admission table that holds the key twice. The key \<open>E1\<close> has measurements on
  three consecutive days, so two labelled days; the static table has two rows for it.
  The merge gives each labelled day twice, and trimming, which drops the first and the
  last of the four rows, keeps two rows, one of each day, where the key's two labelled
  days should leave none.
\<close>

theorem trim_keeps_rows_of_duplicated_days:
  "map (\<lambda>r. (admission_key r, date r)) (process_glucose_data round2 [\<lparr>admission_key = ''E1'', exam_date = Some 738946, blood_sugar = Some 5\<rparr>,
        \<lparr>admission_key = ''E1'', exam_date = Some 738947, blood_sugar = Some 6\<rparr>,
        \<lparr>admission_key = ''E1'', exam_date = Some 738948, blood_sugar = Some 7\<rparr>])
     = [(''E1'', 738946), (''E1'', 738947)]
   \<and> map (\<lambda>r. (admission_key r, date r, static_features r))
       (build_timeseries_dataset round2 [\<lparr>admission_key = ''E1'', exam_date = Some 738946, blood_sugar = Some 5\<rparr>,
        \<lparr>admission_key = ''E1'', exam_date = Some 738947, blood_sugar = Some 6\<rparr>,
        \<lparr>admission_key = ''E1'', exam_date = Some 738948, blood_sugar = Some 7\<rparr>] [(''E1'', ''first''), (''E1'', ''second'')])
     = [(''E1'', 738946, Some ''second''), (''E1'', 738947, Some ''first'')]"
proof -
  let ?g = "[\<lparr>admission_key = ''E1'', exam_date = Some 738946, blood_sugar = Some 5\<rparr>,
        \<lparr>admission_key = ''E1'', exam_date = Some 738947, blood_sugar = Some 6\<rparr>,
        \<lparr>admission_key = ''E1'', exam_date = Some 738948, blood_sugar = Some 7\<rparr>]"
  let ?r1 = "daily_of round2 (''E1'', 738946) [5]"
  let ?r2 = "daily_of round2 (''E1'', 738947) [6]"
  let ?r3 = "daily_of round2 (''E1'', 738948) [7]"
  have valid: "valid_measurements ?g = [(''E1'', 738946, 5), (''E1'', 738947, 6), (''E1'', 738948, 7)]"
    by (simp add: valid_measurements_def)
  have stats: "daily_glucose_stats round2 ?g = [?r1, ?r2, ?r3]"
    unfolding daily_glucose_stats_def valid Let_def by (simp add: group_values_def)
  have f: "admission_key ?r1 = ''E1''" "date ?r1 = 738946" "admission_key ?r2 = ''E1''"
    "date ?r2 = 738947" "admission_key ?r3 = ''E1''" "date ?r3 = 738948"
    "min_glucose ?r1 = 5" "max_glucose ?r1 = 5" "min_glucose ?r2 = 6" "max_glucose ?r2 = 6"
    "min_glucose ?r3 = 7" "max_glucose ?r3 = 7"
    by (simp_all add: daily_of_def agg_min_def agg_max_def)
  have lab: "process_glucose_data round2 ?g = [with_outcome ?r1 1, with_outcome ?r2 1]"
    unfolding process_glucose_data_def stats
    by (simp add: label_next_day_def merge_next_day_def f classify_outcome_def
        List.map_filter_def)
  let ?l1 = "with_outcome ?r1 1" and ?l2 = "with_outcome ?r2 1"
  note lf = with_outcome_fields f
  have days: "map (\<lambda>r. (admission_key r, date r)) (process_glucose_data round2 ?g)
     = [(''E1'', 738946), (''E1'', 738947)]"
    unfolding lab by (simp add: lf)
  let ?m = "\<lambda>l s. labelled_day.extend l (static_row.fields (Some s))"
  have merged: "merge_static [?l1, ?l2] [(''E1'', ''first''), (''E1'', ''second'')]
      = [?m ?l1 ''first'', ?m ?l1 ''second'', ?m ?l2 ''first'', ?m ?l2 ''second'']"
    by (simp add: merge_static_def lf)
  have mf: "admission_key (?m l s) = admission_key l" "date (?m l s) = date l"
    "min_glucose (?m l s) = min_glucose l" "static_features (?m l s) = Some s" for l s
    by (simp_all add: labelled_day.extend_def static_row.fields_def)
  let ?h = "\<lambda>r n. static_row.extend r (hosp_row.fields n)"
  have hosp: "add_hosp_day [?m ?l1 ''first'', ?m ?l1 ''second'', ?m ?l2 ''first'', ?m ?l2 ''second'']
      = [?h (?m ?l1 ''first'') 1, ?h (?m ?l1 ''second'') 2, ?h (?m ?l2 ''first'') 3,
         ?h (?m ?l2 ''second'') 4]"
    by (simp add: add_hosp_day_def mf lf cumcount_def eval_nat_numeral)
  have hf: "admission_key (?h r n) = admission_key r" "date (?h r n) = date r"
    "min_glucose (?h r n) = min_glucose r" "static_features (?h r n) = static_features r"
    for r :: "string static_row" and n
    by (simp_all add: static_row.extend_def hosp_row.fields_def)
  let ?p = "\<lambda>r. hosp_row.extend r (timeseries_row.fields 0)"
  have pre: "add_prehypo [?h (?m ?l1 ''first'') 1, ?h (?m ?l1 ''second'') 2, ?h (?m ?l2 ''first'') 3,
         ?h (?m ?l2 ''second'') 4]
      = [?p (?h (?m ?l1 ''first'') 1), ?p (?h (?m ?l1 ''second'') 2), ?p (?h (?m ?l2 ''first'') 3),
         ?p (?h (?m ?l2 ''second'') 4)]"
    by (simp add: add_prehypo_def hf mf lf)
  have pf: "admission_key (?p r) = admission_key r" "date (?p r) = date r"
    "static_features (?p r) = static_features r" for r :: "string hosp_row"
    by (simp_all add: hosp_row.extend_def timeseries_row.fields_def)
  have trim: "trim_boundary_days [?p (?h (?m ?l1 ''first'') 1), ?p (?h (?m ?l1 ''second'') 2),
         ?p (?h (?m ?l2 ''first'') 3), ?p (?h (?m ?l2 ''second'') 4)]
      = [?p (?h (?m ?l1 ''second'') 2), ?p (?h (?m ?l2 ''first'') 3)]"
    by (simp add: trim_boundary_days_def pf hf mf lf cumcount_def transform_count_def
        select_mask_def)
  have "build_timeseries_dataset round2 ?g [(''E1'', ''first''), (''E1'', ''second'')]
      = [?p (?h (?m ?l1 ''second'') 2), ?p (?h (?m ?l2 ''first'') 3)]"
    unfolding build_timeseries_dataset_def lab Let_def merged hosp pre trim by simp
  then have rows: "map (\<lambda>r. (admission_key r, date r, static_features r))
       (build_timeseries_dataset round2 ?g [(''E1'', ''first''), (''E1'', ''second'')])
     = [(''E1'', 738946, Some ''second''), (''E1'', 738947, Some ''first'')]"
    by (simp add: pf hf mf lf)
  from days rows show ?thesis by (intro conjI)
qed

section \<open>Properties of the label views\<close>

lemma map_of_set_column:
  "map_of (set_column name vs df) = (map_of df)(name \<mapsto> vs)"
  by (induction df) (auto simp: fun_eq_iff)

lemma map_of_drop_columns:
  "map_of (drop_columns names df) n = (if n \<in> set names then None else map_of df n)"
  by (induction df) (auto simp: drop_columns_def)

lemma map_of_rename_column:
  assumes "map_of df new = None"
  shows "map_of (rename_column old new df) n =
           (if n = new then map_of df old else if n = old then None else map_of df n)"
  using assms by (induction df) (auto simp: rename_column_def split: if_splits)

lemma columns_set_column:
  "columns (set_column name vs df)
     = (if name \<in> set (columns df) then columns df else columns df @ [name])"
  by (induction df) (auto simp: columns_def)

lemma columns_drop_columns:
  "columns (drop_columns names df) = filter (\<lambda>n. n \<notin> set names) (columns df)"
  by (simp add: columns_def drop_columns_def filter_map comp_def)

lemma columns_rename_column:
  "columns (rename_column old new df) = map (\<lambda>n. if n = old then new else n) (columns df)"
  by (simp add: columns_def rename_column_def comp_def)

text \<open>
  C10 as the code has it. The two-class table has the rows of the three-class table in
  the same order: every column other than the outcome label and other than a column
  that already has the scratch name \<open>outcome_HYPO\<close> is the same list of values, and the
  new outcome column is, row by row, 1 where the three-class label was 0 (hypoglycemia)
  and 0 everywhere else. The table has no column \<open>outcome_HYPO\<close>: its columns are those
  of the three-class table without the outcome label, in their order, and the new
  outcome label last; when the three-class table has a column \<open>outcome_HYPO\<close>, the new
  outcome label stands in its place.
\<close>

theorem hypo_binary_table_same_rows:
  assumes "map_of df_combined ''outcome'' = Some outcomes"
  shows "\<exists>df_hypo. hypo_binary_table df_combined = Inr df_hypo
           \<and> (\<forall>c. c \<noteq> ''outcome'' \<and> c \<noteq> ''outcome_HYPO'' \<longrightarrow> map_of df_hypo c = map_of df_combined c)
           \<and> map_of df_hypo ''outcome_HYPO'' = None
           \<and> (if ''outcome_HYPO'' \<in> set (columns df_combined)
               then columns df_hypo
                      = map (\<lambda>n. if n = ''outcome_HYPO'' then ''outcome'' else n)
                          (filter (\<lambda>n. n \<noteq> ''outcome'') (columns df_combined))
               else columns df_hypo
                      = filter (\<lambda>n. n \<noteq> ''outcome'') (columns df_combined) @ [''outcome''])
           \<and> map_of df_hypo ''outcome'' = Some (map outcome_HYPO outcomes)
           \<and> length (map outcome_HYPO outcomes) = length outcomes
           \<and> (\<forall>i < length outcomes.
                 map outcome_HYPO outcomes ! i = (if outcomes ! i = Num 0 then Num 1 else Num 0))"
proof -
  let ?s = "set_column ''outcome_HYPO'' (map outcome_HYPO outcomes) df_combined"
  let ?d = "drop_columns [''outcome''] ?s"
  let ?h = "rename_column ''outcome_HYPO'' ''outcome'' ?d"
  have r: "hypo_binary_table df_combined = Inr ?h"
    using assms by (simp add: hypo_binary_table_def)
  have none: "map_of ?d ''outcome'' = None" by (simp add: map_of_drop_columns)
  note m = map_of_rename_column [OF none]
  have same: "\<forall>c. c \<noteq> ''outcome'' \<and> c \<noteq> ''outcome_HYPO'' \<longrightarrow> map_of ?h c = map_of df_combined c"
    by (simp add: m map_of_drop_columns map_of_set_column)
  have scratch: "map_of ?h ''outcome_HYPO'' = None"
    by (simp add: m)
  have out: "map_of ?h ''outcome'' = Some (map outcome_HYPO outcomes)"
    by (simp add: m map_of_drop_columns map_of_set_column)
  have cols: "if ''outcome_HYPO'' \<in> set (columns df_combined)
               then columns ?h
                      = map (\<lambda>n. if n = ''outcome_HYPO'' then ''outcome'' else n)
                          (filter (\<lambda>n. n \<noteq> ''outcome'') (columns df_combined))
               else columns ?h
                      = filter (\<lambda>n. n \<noteq> ''outcome'') (columns df_combined) @ [''outcome'']"
  proof (cases "''outcome_HYPO'' \<in> set (columns df_combined)")
    case True
    then show ?thesis
      by (simp add: columns_rename_column columns_drop_columns columns_set_column)
  next
    case False
    then have "map (\<lambda>n. if n = ''outcome_HYPO'' then ''outcome'' else n)
                 (filter (\<lambda>n. n \<noteq> ''outcome'') (columns df_combined))
               = filter (\<lambda>n. n \<noteq> ''outcome'') (columns df_combined)"
      by (intro map_idI) auto
    with False show ?thesis
      by (simp add: columns_rename_column columns_drop_columns columns_set_column)
  qed
  have vals: "\<forall>i < length outcomes.
                 map outcome_HYPO outcomes ! i = (if outcomes ! i = Num 0 then Num 1 else Num 0)"
    by (simp add: outcome_HYPO_def)
  show ?thesis
    by (rule exI [of _ ?h]) (intro conjI r same scratch cols out vals length_map)
qed

text \<open>
  A three-class table of three rows with the labels 0, 2 and 1: the two-class table has
  the labels 1, 0 and 0 and the other columns as they were.
\<close>

theorem hypo_binary_table_same_rows_witness:
  "map_of [(''admission_key'', [Txt ''E1'', Txt ''E1'', Txt ''E2'']),
        (''outcome'', [Num 0, Num 2, Num 1]),
        (''min_glucose'', [Num 5, Num 3, Num 6])] ''outcome'' = Some [Num 0, Num 2, Num 1]
   \<and> (\<exists>df_hypo.
     hypo_binary_table [(''admission_key'', [Txt ''E1'', Txt ''E1'', Txt ''E2'']),
        (''outcome'', [Num 0, Num 2, Num 1]),
        (''min_glucose'', [Num 5, Num 3, Num 6])] = Inr df_hypo
     \<and> columns df_hypo = [''admission_key'', ''min_glucose'', ''outcome'']
     \<and> map_of df_hypo ''admission_key'' = Some [Txt ''E1'', Txt ''E1'', Txt ''E2'']
     \<and> map_of df_hypo ''min_glucose'' = Some [Num 5, Num 3, Num 6]
     \<and> map_of df_hypo ''outcome_HYPO'' = None
     \<and> map_of df_hypo ''outcome'' = Some [Num 1, Num 0, Num 0])"
proof -
  let ?df = "[(''admission_key'', [Txt ''E1'', Txt ''E1'', Txt ''E2'']),
        (''outcome'', [Num 0, Num 2, Num 1]),
        (''min_glucose'', [Num 5, Num 3, Num 6])]"
  have o: "map_of ?df ''outcome'' = Some [Num 0, Num 2, Num 1]" by simp
  from hypo_binary_table_same_rows [OF o]
  have "\<exists>df_hypo.
     hypo_binary_table ?df = Inr df_hypo
     \<and> columns df_hypo = [''admission_key'', ''min_glucose'', ''outcome'']
     \<and> map_of df_hypo ''admission_key'' = Some [Txt ''E1'', Txt ''E1'', Txt ''E2'']
     \<and> map_of df_hypo ''min_glucose'' = Some [Num 5, Num 3, Num 6]
     \<and> map_of df_hypo ''outcome_HYPO'' = None
     \<and> map_of df_hypo ''outcome'' = Some [Num 1, Num 0, Num 0]"
  proof (elim exE conjE)
    fix df_hypo
    assume r: "hypo_binary_table ?df = Inr df_hypo"
      and same: "\<forall>c. c \<noteq> ''outcome'' \<and> c \<noteq> ''outcome_HYPO'' \<longrightarrow> map_of df_hypo c = map_of ?df c"
      and scratch: "map_of df_hypo ''outcome_HYPO'' = None"
      and cols: "if ''outcome_HYPO'' \<in> set (columns ?df)
               then columns df_hypo
                      = map (\<lambda>n. if n = ''outcome_HYPO'' then ''outcome'' else n)
                          (filter (\<lambda>n. n \<noteq> ''outcome'') (columns ?df))
               else columns df_hypo
                      = filter (\<lambda>n. n \<noteq> ''outcome'') (columns ?df) @ [''outcome'']"
      and out: "map_of df_hypo ''outcome'' = Some (map outcome_HYPO [Num 0, Num 2, Num 1])"
    have c: "columns df_hypo = [''admission_key'', ''min_glucose'', ''outcome'']"
      using cols by (simp add: columns_def)
    have k: "map_of df_hypo ''admission_key'' = Some [Txt ''E1'', Txt ''E1'', Txt ''E2'']"
      using same [rule_format, of "''admission_key''"] by simp
    have g: "map_of df_hypo ''min_glucose'' = Some [Num 5, Num 3, Num 6]"
      using same [rule_format, of "''min_glucose''"] by simp
    have o: "map_of df_hypo ''outcome'' = Some [Num 1, Num 0, Num 0]"
      using out by (simp add: outcome_HYPO_def)
    show ?thesis
      by (rule exI [of _ df_hypo]) (intro conjI r c k g scratch o)
  qed
  with o show ?thesis by (intro conjI)
qed

text \<open>
  C10 as it is stated fails for a three-class table that has a column
  \<open>outcome_HYPO\<close> of its own: the two-class table does not have that column.
\<close>

theorem hypo_binary_table_loses_scratch_column:
  "map_of [(''outcome'', [Num 0, Num 2]), (''outcome_HYPO'', [Txt ''a'', Txt ''b''])] ''outcome_HYPO''
     = Some [Txt ''a'', Txt ''b'']
   \<and> hypo_binary_table [(''outcome'', [Num 0, Num 2]), (''outcome_HYPO'', [Txt ''a'', Txt ''b''])]
     = Inr [(''outcome'', [Num 1, Num 0])]
   \<and> map_of [(''outcome'', [Num 1 :: cell, Num 0])] ''outcome_HYPO'' = None"
  by (simp add: hypo_binary_table_def drop_columns_def rename_column_def outcome_HYPO_def)

end
